theory Spec2Isabelle
  imports Main
begin

section \<open>Values\<close>

text \<open>
  \<open>AWKValue\<close> (value.hpp) is a tagged value. The model keeps the scalar tags. Numbers are
  IEEE doubles in the source; the model keeps the integer-valued ones, whose string form
  is the decimal integer (the first branch of \<open>number_to_string\<close>). An array is kept as
  the list of its keys with their values, each key once.
\<close>

datatype AWKValue =
    Uninitialized
  | Number int
  | String string
  | Strnum string
  | Regex string
  | Array "(string \<times> AWKValue) list"

text \<open>\<open>std::to_string(long long)\<close>: the decimal digits, with a minus sign below zero.\<close>

definition digit_char :: "nat \<Rightarrow> char" where
  "digit_char d = char_of (48 + d)"

function nat_to_string :: "nat \<Rightarrow> string" where
  "nat_to_string n =
     (if n < 10 then [digit_char n] else nat_to_string (n div 10) @ [digit_char (n mod 10)])"
  by pat_completeness auto
termination
  by (relation "measure (\<lambda>n. n)") auto

declare nat_to_string.simps [simp del]

definition number_to_string :: "int \<Rightarrow> string" where
  "number_to_string num =
     (if num < 0 then CHR ''-'' # nat_to_string (nat (- num)) else nat_to_string (nat num))"

fun to_string :: "AWKValue \<Rightarrow> string" where
  "to_string (String s) = s"
| "to_string (Strnum s) = s"
| "to_string (Number n) = number_to_string n"
| "to_string Uninitialized = []"
| "to_string (Regex p) = p"
| "to_string (Array a) = []"

fun to_bool :: "AWKValue \<Rightarrow> bool" where
  "to_bool (Number n) = (n \<noteq> 0)"
| "to_bool Uninitialized = False"
| "to_bool (String s) = (s \<noteq> [])"
| "to_bool (Strnum s) = (s \<noteq> [])"
| "to_bool (Regex p) = True"
| "to_bool (Array a) = (a \<noteq> [])"

definition is_truthy :: "AWKValue \<Rightarrow> bool" where
  "is_truthy v = to_bool v"

section \<open>Interpreter state\<close>

text \<open>
  The members of \<open>Interpreter\<close> the modelled functions read or write. \<open>NF\<close>, \<open>NR\<close>,
  \<open>FNR\<close>, \<open>FILENAME\<close>, \<open>OFS\<close>, \<open>ORS\<close> and \<open>SUBSEP\<close> are the special variables of the environment;
  \<open>globals\<close> are the other global variables, a variable never assigned reading as
  \<open>Uninitialized\<close> (\<open>get_variable\<close> creates it so). No user function is active, so the
  scope stack is empty. \<open>output_log\<close> and \<open>error_log\<close> are what has been written to the output
  and error streams, oldest first; \<open>open_streams\<close> are the keys of the stream registries.
\<close>

record interp =
  current_record :: string
  fields_vec :: "string list"
  field_values :: "AWKValue list"
  field_values_valid :: "bool list"
  record_dirty :: bool
  fields_dirty :: bool
  NF :: int
  NR :: int
  FNR :: int
  FILENAME :: string
  OFS :: string
  ORS :: string
  SUBSEP :: string
  globals :: "string \<Rightarrow> AWKValue"
  output_log :: "string list"
  error_log :: "string list"
  open_streams :: "string list"

datatype TokenType =
    ASSIGN | PLUS_ASSIGN | MINUS_ASSIGN | STAR_ASSIGN | SLASH_ASSIGN | PERCENT_ASSIGN
  | CARET_ASSIGN

section \<open>Regular expressions\<close>

text \<open>
  A compiled \<open>std::regex\<close> is modelled by what \<open>std::regex_search\<close> computes with it. The
  engine \<open>re f pre t\<close> is given the flags, the text \<open>pre\<close> before the searched range and
  the searched range \<open>t\<close>; it answers the leftmost match in \<open>t\<close> as its offset in \<open>t\<close> and
  its length. Capture groups are not modelled.
\<close>

record match_flag_type =
  match_not_null :: bool
  match_continuous :: bool
  match_prev_avail :: bool

type_synonym regex = "match_flag_type \<Rightarrow> string \<Rightarrow> string \<Rightarrow> (nat \<times> nat) option"

section \<open>Library functions\<close>

text \<open>
  What the interpreter takes from outside the modelled code: the field splitter that
  \<open>parse_fields\<close> selects from \<open>FPAT\<close> and \<open>FS\<close> (whitespace, one byte, or a regular
  expression), the arithmetic of \<open>AWKValue\<close> on doubles, the numeric reading of a string
  (\<open>string_to_number\<close>, by \<open>strtod\<close>; integer-valued in the model), the regex cache, which
  compiles a pattern or fails with \<open>std::regex_error\<close> (\<open>None\<close>), the names of the user
  functions and builtins (\<open>has_function\<close> or \<open>has_builtin\<close>), what the target machine makes
  of \<open>static_cast<size_t>\<close> and of \<open>static_cast<int>\<close> on a double outside the range of the
  type, which C++ leaves undefined, and whether the read that fails at the end of an input
  clears \<open>current_record_\<close>: \<open>std::getline\<close> erases the string unless the stream has met
  the end of the file already, while reading a last record without terminator; the
  paragraph and single-character modes always clear it. It is taken as the same for all
  inputs of a run.
\<close>

record libs =
  field_splitter :: "interp \<Rightarrow> string list"
  arith :: "TokenType \<Rightarrow> AWKValue \<Rightarrow> AWKValue \<Rightarrow> AWKValue"
  string_to_number :: "string \<Rightarrow> int"
  get_cached_regex :: "string \<Rightarrow> regex option"
  has_function :: "string \<Rightarrow> bool"
  size_t_out_of_range :: "int \<Rightarrow> nat"
  int_out_of_range :: "int \<Rightarrow> int"
  clears_record_at_end :: bool

text \<open>\<open>AWKValue::to_number\<close>, on the integer-valued numbers of the model.\<close>

fun to_number :: "libs \<Rightarrow> AWKValue \<Rightarrow> int" where
  "to_number h (Number n) = n"
| "to_number h Uninitialized = 0"
| "to_number h (String s) = string_to_number h s"
| "to_number h (Strnum s) = string_to_number h s"
| "to_number h (Regex p) = 0"
| "to_number h (Array a) = 0"

text \<open>\<open>static_cast<size_t>(d)\<close> for a double of integer value \<open>v\<close>.\<close>

definition to_size_t :: "libs \<Rightarrow> int \<Rightarrow> nat" where
  "to_size_t h v = (if 0 \<le> v \<and> v < 2 ^ 64 then nat v else size_t_out_of_range h v)"

text \<open>\<open>static_cast<int>(d)\<close> for a double of integer value \<open>v\<close>.\<close>

definition to_int :: "libs \<Rightarrow> int \<Rightarrow> int" where
  "to_int h v = (if - (2 ^ 31) \<le> v \<and> v < 2 ^ 31 then v else int_out_of_range h v)"

section \<open>Fields\<close>

text \<open>\<open>Interpreter::parse_fields\<close>: a dirty record is split again and \<open>NF\<close> is set.\<close>

definition parse_fields :: "libs \<Rightarrow> interp \<Rightarrow> interp" where
  "parse_fields h st =
     (if \<not> record_dirty st then st
      else st\<lparr> fields_vec := field_splitter h st,
               field_values_valid := map (\<lambda>_. False) (field_values_valid st),
               NF := int (length (field_splitter h st)),
               record_dirty := False,
               fields_dirty := False \<rparr>)"

text \<open>The loop of \<open>rebuild_record\<close>: the fields joined by \<open>OFS\<close>.\<close>

fun join_fields :: "string \<Rightarrow> string list \<Rightarrow> string" where
  "join_fields ofs [] = []"
| "join_fields ofs [f] = f"
| "join_fields ofs (f # g # fs) = f @ ofs @ join_fields ofs (g # fs)"

definition rebuild_record :: "interp \<Rightarrow> interp" where
  "rebuild_record st =
     (if \<not> fields_dirty st then st
      else st\<lparr> current_record := join_fields (OFS st) (fields_vec st), fields_dirty := False \<rparr>)"

text \<open>\<open>while (index > fields_.size()) fields_.push_back("")\<close>.\<close>

definition extend_fields :: "int \<Rightarrow> string list \<Rightarrow> string list" where
  "extend_fields index fs = fs @ replicate (nat index - length fs) []"

text \<open>\<open>std::vector::resize(n, d)\<close>.\<close>

definition resize :: "nat \<Rightarrow> 'a \<Rightarrow> 'a list \<Rightarrow> 'a list" where
  "resize n d xs = take n xs @ replicate (n - length xs) d"

text \<open>
  \<open>Interpreter::get_field\<close>. The source returns a reference; the model returns the value
  read and the state after the call.
\<close>

definition get_field :: "libs \<Rightarrow> int \<Rightarrow> interp \<Rightarrow> AWKValue \<times> interp" where
  "get_field h index st =
     (let st1 = parse_fields h st in
      if index = 0 then
        (let st2 = rebuild_record st1 in (Strnum (current_record st2), st2))
      else if index < 0 then (String [], st1)
      else
        (let fs = extend_fields index (fields_vec st1);
             grow = length (field_values st1) < length fs;
             vals = (if grow then resize (length fs) Uninitialized (field_values st1)
                     else field_values st1);
             valid = (if grow then resize (length fs) False (field_values_valid st1)
                      else field_values_valid st1);
             idx = nat (index - 1);
             vals' = (if \<not> valid ! idx then vals[idx := Strnum (fs ! idx)] else vals);
             valid' = (if \<not> valid ! idx then valid[idx := True] else valid)
         in (vals' ! idx,
             st1\<lparr> fields_vec := fs, field_values := vals', field_values_valid := valid' \<rparr>)))"

text \<open>\<open>Interpreter::set_field\<close>.\<close>

definition set_field :: "libs \<Rightarrow> int \<Rightarrow> AWKValue \<Rightarrow> interp \<Rightarrow> interp" where
  "set_field h index v st =
     (let st1 = parse_fields h st in
      if index = 0 then
        parse_fields h (st1\<lparr> current_record := to_string v, record_dirty := True \<rparr>)
      else if index < 0 then st1
      else
        (let fs = (extend_fields index (fields_vec st1))[nat (index - 1) := to_string v];
             valid = (if int (length (field_values_valid st1)) \<ge> index
                      then (field_values_valid st1)[nat (index - 1) := False]
                      else field_values_valid st1)
         in st1\<lparr> fields_vec := fs, fields_dirty := True, field_values_valid := valid,
                  NF := int (length fs) \<rparr>))"

text \<open>\<open>Interpreter::set_record\<close>.\<close>

definition set_record :: "libs \<Rightarrow> string \<Rightarrow> interp \<Rightarrow> interp" where
  "set_record h r st = parse_fields h (st\<lparr> current_record := r, record_dirty := True \<rparr>)"

text \<open>
  The default splitter (\<open>FS == " "\<close>): \<open>while (iss >> field)\<close>, the maximal runs of
  characters that are not white space.
\<close>

definition is_space :: "char \<Rightarrow> bool" where
  "is_space c = (c = CHR '' '' \<or> c = CHR 0x09 \<or> c = CHR 0x0A \<or> c = CHR 0x0B
                 \<or> c = CHR 0x0C \<or> c = CHR 0x0D)"

fun split_whitespace :: "string \<Rightarrow> string \<Rightarrow> string list" where
  "split_whitespace cur [] = (if cur = [] then [] else [cur])"
| "split_whitespace cur (c # cs) =
     (if is_space c then (if cur = [] then split_whitespace [] cs
                          else cur # split_whitespace [] cs)
      else split_whitespace (cur @ [c]) cs)"


section \<open>Searching and replacing with a regular expression\<close>

text \<open>
  \<open>std::regex_search(first, last, m, re, flags)\<close> on the range of \<open>s\<close> that starts at \<open>k\<close>.
  The engine sees the text before the range only under \<open>match_prev_avail\<close>. Its answer is
  kept when it is one \<open>std::regex_search\<close> can give: a match inside the range, not empty
  under \<open>match_not_null\<close>, at the start of the range under \<open>match_continuous\<close>. The result is
  the position of the match in \<open>s\<close> and its length.
\<close>

definition match_default :: match_flag_type where
  "match_default = \<lparr> match_not_null = False, match_continuous = False, match_prev_avail = False \<rparr>"

definition regex_search :: "regex \<Rightarrow> match_flag_type \<Rightarrow> string \<Rightarrow> nat \<Rightarrow> (nat \<times> nat) option" where
  "regex_search re f s k =
     (if length s < k then None
      else case re f (if match_prev_avail f then take k s else []) (drop k s) of
             None \<Rightarrow> None
           | Some (p, l) \<Rightarrow>
               if p + l \<le> length s - k \<and> (if match_not_null f then 0 < l else True)
                  \<and> (if match_continuous f then p = 0 else True)
               then Some (k + p, l) else None)"

text \<open>
  \<open>std::regex_iterator::operator++\<close>, from the current match and whether the iterator's
  flags hold \<open>match_prev_avail\<close>: after an empty match at the end the iterator ends; after
  an empty match elsewhere it tries a non-empty match at the same place and else moves
  one character on; then it searches from there with \<open>match_prev_avail\<close>.
\<close>

definition regex_iterator_incr ::
  "regex \<Rightarrow> string \<Rightarrow> bool \<Rightarrow> nat \<times> nat \<Rightarrow> ((nat \<times> nat) \<times> bool) option" where
  "regex_iterator_incr re s pa m =
     (let start = fst m + snd m in
      if snd m = 0 then
        (if start = length s then None
         else
           (case regex_search re
                   \<lparr> match_not_null = True, match_continuous = True, match_prev_avail = pa \<rparr>
                   s start of
              Some m' \<Rightarrow> Some (m', pa)
            | None \<Rightarrow>
                (case regex_search re
                        \<lparr> match_not_null = False, match_continuous = False,
                          match_prev_avail = True \<rparr> s (start + 1) of
                   Some m' \<Rightarrow> Some (m', True)
                 | None \<Rightarrow> None)))
      else
        (case regex_search re
                \<lparr> match_not_null = False, match_continuous = False, match_prev_avail = True \<rparr>
                s start of
           Some m' \<Rightarrow> Some (m', True)
         | None \<Rightarrow> None))"

text \<open>Where a search and an iterator step can answer: what makes the iteration end.\<close>

lemma regex_search_bounds:
  "regex_search re f s k = Some (p, l) \<Longrightarrow>
     k \<le> p \<and> p + l \<le> length s \<and> (match_not_null f \<longrightarrow> 0 < l) \<and> (match_continuous f \<longrightarrow> p = k)"
  by (auto simp add: regex_search_def split: if_splits option.splits)

lemma regex_iterator_incr_bounds:
  assumes "regex_iterator_incr re s pa (p, l) = Some ((p', l'), pa')"
  shows "p + l \<le> p' \<and> p' + l' \<le> length s \<and> (l = 0 \<longrightarrow> p < p' + l')"
  using assms
  by (auto simp add: regex_iterator_incr_def Let_def split: if_splits option.splits
      dest!: regex_search_bounds)

text \<open>The matches an iterator yields from its current match on, and from the start.\<close>

function regex_iterator_from :: "regex \<Rightarrow> string \<Rightarrow> bool \<Rightarrow> nat \<times> nat \<Rightarrow> (nat \<times> nat) list" where
  "regex_iterator_from re s pa m =
     m # (case regex_iterator_incr re s pa m of
            None \<Rightarrow> []
          | Some (m', pa') \<Rightarrow> regex_iterator_from re s pa' m')"
  by pat_completeness auto
termination
proof (relation "measure (\<lambda>(re, s, pa, m). 2 * (length s - (fst m + snd m)) + (if snd m = 0 then 0 else 1))")
  show "wf (measure (\<lambda>(re, s, pa, m). 2 * (length s - (fst m + snd m)) + (if snd m = 0 then 0 else 1)))"
    by simp
next
  fix re :: regex and s pa m x2 x y
  assume a: "regex_iterator_incr re s pa m = Some x2" and b: "(x, y) = x2"
  obtain p l where m: "m = (p, l)" by (cases m)
  obtain p' l' where x: "x = (p', l')" by (cases x)
  from a b m x have "regex_iterator_incr re s pa (p, l) = Some ((p', l'), y)" by simp
  from regex_iterator_incr_bounds [OF this]
  have "p + l \<le> p'" "p' + l' \<le> length s" "l = 0 \<longrightarrow> p < p' + l'" by auto
  then show "((re, s, y, x), re, s, pa, m)
       \<in> measure (\<lambda>(re, s, pa, m). 2 * (length s - (fst m + snd m)) + (if snd m = 0 then 0 else 1))"
    using m x by (auto split: if_splits)
qed

declare regex_iterator_from.simps [simp del]

definition regex_iterator :: "regex \<Rightarrow> string \<Rightarrow> (nat \<times> nat) list" where
  "regex_iterator re s =
     (case regex_search re match_default s 0 of
        None \<Rightarrow> []
      | Some m \<Rightarrow> regex_iterator_from re s False m)"

text \<open>
  The counting loop of \<open>gsub\<close> ("Count replacements" in \<open>evaluate(CallExpr&)\<close>, "Count
  matches first" in \<open>do_substitution\<close>): each search is a fresh \<open>std::regex_search\<close> on the
  rest of the target, with the default flags.
\<close>

function gsub_count :: "regex \<Rightarrow> string \<Rightarrow> nat \<Rightarrow> nat \<Rightarrow> nat" where
  "gsub_count re s searchStart count =
     (case regex_search re match_default s searchStart of
        None \<Rightarrow> count
      | Some (p, l) \<Rightarrow>
          if l = 0 then
            (if p + l \<noteq> length s then gsub_count re s (p + l + 1) (count + 1)
             else count + 1)
          else gsub_count re s (p + l) (count + 1))"
  by pat_completeness auto
termination
  by (relation "measure (\<lambda>(re, s, k, c). length s - k)")
     (auto dest!: regex_search_bounds)

declare gsub_count.simps [simp del]

text \<open>
  \<open>std::match_results::format\<close> under the ECMAScript rules, for a match without capture
  groups: \<open>$&\<close> and \<open>$0\<close> are the match, \<open>$`\<close> its prefix, \<open>$'\<close> its suffix, \<open>$$\<close> a dollar sign,
  \<open>$n\<close> for any other number nothing; a dollar sign before anything else stands for itself.
\<close>

definition is_digit :: "char \<Rightarrow> bool" where
  "is_digit c = (48 \<le> (of_char c :: nat) \<and> (of_char c :: nat) \<le> 57)"

definition digit_value :: "char \<Rightarrow> nat" where
  "digit_value c = (of_char c :: nat) - 48"

definition submatch :: "nat \<Rightarrow> string \<Rightarrow> string" where
  "submatch num m = (if num < 1 then m else [])"

fun format :: "string \<Rightarrow> string \<Rightarrow> string \<Rightarrow> string \<Rightarrow> string" where
  "format [] pre m suf = []"
| "format [c] pre m suf = [c]"
| "format (c # d # fmt) pre m suf =
     (if c \<noteq> CHR ''$'' then c # format (d # fmt) pre m suf
      else if d = CHR ''$'' then CHR ''$'' # format fmt pre m suf
      else if d = CHR ''&'' then m @ format fmt pre m suf
      else if d = CHR 0x60 then pre @ format fmt pre m suf
      else if d = CHR 0x27 then suf @ format fmt pre m suf
      else if is_digit d then
        (case fmt of
           [] \<Rightarrow> submatch (digit_value d) m
         | e # fmt' \<Rightarrow>
             if is_digit e
             then submatch (digit_value d * 10 + digit_value e) m @ format fmt' pre m suf
             else submatch (digit_value d) m @ format (e # fmt') pre m suf)
      else CHR ''$'' # format (d # fmt) pre m suf)"

text \<open>
  \<open>std::regex_replace\<close>: for each match of the iterator, the text since the last match and
  the formatted match; then the text after the last match. Under \<open>format_first_only\<close> the
  loop stops after the first match.
\<close>

fun replace_loop :: "string \<Rightarrow> string \<Rightarrow> nat \<Rightarrow> (nat \<times> nat) list \<Rightarrow> string" where
  "replace_loop s fmt e [] = drop e s"
| "replace_loop s fmt e ((p, l) # ms) =
     take (p - e) (drop e s)
     @ format fmt (take (p - e) (drop e s)) (take l (drop p s)) (drop (p + l) s)
     @ replace_loop s fmt (p + l) ms"

definition regex_replace :: "string \<Rightarrow> regex \<Rightarrow> string \<Rightarrow> bool \<Rightarrow> string" where
  "regex_replace s re fmt format_first_only =
     replace_loop s fmt 0
       (if format_first_only then take 1 (regex_iterator re s) else regex_iterator re s)"

text \<open>\<open>convert_awk_replacement\<close> (interpreter.hpp).\<close>

fun convert_awk_replacement :: "string \<Rightarrow> bool \<Rightarrow> string" where
  "convert_awk_replacement [] support_backrefs = []"
| "convert_awk_replacement [c] support_backrefs = (if c = CHR ''&'' then ''$&'' else [c])"
| "convert_awk_replacement (c # n # rest) support_backrefs =
     (if c = CHR 0x5C then
        (if support_backrefs \<and> is_digit n
         then CHR ''$'' # n # convert_awk_replacement rest support_backrefs
         else if n = CHR ''&'' then CHR ''&'' # convert_awk_replacement rest support_backrefs
         else if n = CHR 0x5C then CHR 0x5C # convert_awk_replacement rest support_backrefs
         else c # convert_awk_replacement (n # rest) support_backrefs)
      else if c = CHR ''&'' then ''$&'' @ convert_awk_replacement (n # rest) support_backrefs
      else c # convert_awk_replacement (n # rest) support_backrefs)"

section \<open>Expressions\<close>

text \<open>
  The expressions of ast.hpp that the modelled functions inspect, each with its own
  constructor; every other kind of expression (operators, calls, \<open>in\<close>, \<open>getline\<close>) is an
  \<open>OtherExpr\<close>, given by what \<open>evaluate\<close> does with it: the value and the state after.
\<close>

datatype Literal = NumberLiteral int | StringLiteral string

datatype Expr =
    LiteralExpr Literal
  | RegexExpr string
  | VariableExpr string
  | FieldExpr Expr
  | ArrayAccessExpr string "Expr list"
  | ConcatExpr "Expr list"
  | AssignExpr Expr TokenType Expr
  | OtherExpr "interp \<Rightarrow> AWKValue \<times> interp"

text \<open>
  Modelled from the spec: \<open>AWKValue::append_string\<close> is called by
  \<open>evaluate(AssignExpr&)\<close> but is neither declared nor defined under src/. The spec
  (4.6.5) says of this path that it "appends into the existing string": the value
  becomes the string made of its string form followed by the appended text.
\<close>

definition append_string :: "AWKValue \<Rightarrow> string \<Rightarrow> AWKValue" where
  "append_string v s = String (to_string v @ s)"

text \<open>
  The test opening \<open>evaluate(AssignExpr&)\<close>: a plain \<open>=\<close> whose target is a variable and
  whose value is a concatenation with that same variable as its first part. It answers
  the variable's name and the remaining parts.
\<close>

definition append_pattern :: "Expr \<Rightarrow> TokenType \<Rightarrow> Expr \<Rightarrow> (string \<times> Expr list) option" where
  "append_pattern target op val =
     (if op = ASSIGN then
        (case target of
           VariableExpr target_var \<Rightarrow>
             (case val of
                ConcatExpr parts \<Rightarrow>
                  (case parts of
                     [] \<Rightarrow> None
                   | first # rest \<Rightarrow>
                       (case first of
                          VariableExpr first_var \<Rightarrow>
                            if first_var = target_var then Some (target_var, rest) else None
                        | _ \<Rightarrow> None))
              | _ \<Rightarrow> None)
         | _ \<Rightarrow> None)
      else None)"

text \<open>The remaining parts are smaller than the value: the evaluator below terminates.\<close>

lemma append_pattern_size:
  "append_pattern target op val = Some (x, rest) \<Longrightarrow> size_list size rest < size val"
  by (auto simp add: append_pattern_def split: if_splits Expr.splits list.splits)

text \<open>Writing through the reference \<open>env_.get_variable(name)\<close>.\<close>

definition set_variable :: "string \<Rightarrow> AWKValue \<Rightarrow> interp \<Rightarrow> interp" where
  "set_variable name v st = st\<lparr> globals := (globals st)(name := v) \<rparr>"

text \<open>
  \<open>AWKValue::make_array_key\<close>: the string forms of the indices joined by \<open>SUBSEP\<close>.
\<close>

definition make_array_key :: "AWKValue list \<Rightarrow> string \<Rightarrow> string" where
  "make_array_key indices subsep = join_fields subsep (map to_string indices)"

text \<open>
  \<open>AWKValue::array_access\<close>: a value that is not an array becomes an empty one, and a key
  that is missing is added with the uninitialized value. The source returns a reference
  to the element; the model returns the element and the array after the access, and
  \<open>array_store\<close> is a write through that reference.
\<close>

definition array_access :: "AWKValue \<Rightarrow> string \<Rightarrow> AWKValue \<times> AWKValue" where
  "array_access a key =
     (let m = (case a of Array m \<Rightarrow> m | _ \<Rightarrow> []) in
      case map_of m key of
        Some v \<Rightarrow> (v, Array m)
      | None \<Rightarrow> (Uninitialized, Array (m @ [(key, Uninitialized)])))"

definition array_store :: "AWKValue \<Rightarrow> string \<Rightarrow> AWKValue \<Rightarrow> AWKValue" where
  "array_store a key v =
     (case a of
        Array m \<Rightarrow> Array (map (\<lambda>(k, w). if k = key then (k, v) else (k, w)) m)
      | _ \<Rightarrow> a)"

text \<open>
  \<open>Interpreter::evaluate(Expr&)\<close> with its overloads for the modelled kinds.
  \<open>evaluate_parts\<close> is the first loop of \<open>evaluate(ConcatExpr&)\<close>; \<open>append_parts\<close> is the
  loop of the in-place path of \<open>evaluate(AssignExpr&)\<close>, which appends to the variable as
  it stands after each part has been evaluated; \<open>evaluate_indices\<close> is the loop over the
  indices of an array element. The assignment to a variable or an array element is the
  path through \<open>get_lvalue\<close>. The parser admits only lvalues as targets; for any other
  target the source assigns to a static dummy, which the model does not keep.
\<close>

function evaluate :: "libs \<Rightarrow> Expr \<Rightarrow> interp \<Rightarrow> AWKValue \<times> interp"
  and evaluate_indices :: "libs \<Rightarrow> Expr list \<Rightarrow> interp \<Rightarrow> AWKValue list \<times> interp"
  and evaluate_parts :: "libs \<Rightarrow> Expr list \<Rightarrow> interp \<Rightarrow> string list \<times> interp"
  and append_parts :: "libs \<Rightarrow> string \<Rightarrow> Expr list \<Rightarrow> interp \<Rightarrow> interp"
where
  "evaluate h (LiteralExpr l) st =
     (case l of NumberLiteral n \<Rightarrow> (Number n, st) | StringLiteral s \<Rightarrow> (String s, st))"
| "evaluate h (RegexExpr p) st = (Regex p, st)"
| "evaluate h (VariableExpr name) st = (globals st name, st)"
| "evaluate h (FieldExpr index) st =
     (case evaluate h index st of (iv, st1) \<Rightarrow> get_field h (to_int h (to_number h iv)) st1)"
| "evaluate h (ArrayAccessExpr name indices) st =
     (case evaluate_indices h indices st of
        (idx_vals, st1) \<Rightarrow>
          (let key = make_array_key idx_vals (SUBSEP st1) in
           if name = ''SYMTAB'' then (globals st1 key, st1)
           else if name = ''FUNCTAB'' then
             (if has_function h key then (String key, st1) else (String [], st1))
           else
             (case array_access (globals st1 name) key of
                (element, arr) \<Rightarrow> (element, set_variable name arr st1))))"
| "evaluate h (ConcatExpr parts) st =
     (case evaluate_parts h parts st of (strs, st1) \<Rightarrow> (String (concat strs), st1))"
| "evaluate h (OtherExpr f) st = f st"
| "evaluate h (AssignExpr target op val) st =
     (case append_pattern target op val of
        Some (name, rest) \<Rightarrow> (Uninitialized, append_parts h name rest st)
      | None \<Rightarrow>
          (case evaluate h val st of
             (v, st1) \<Rightarrow>
               (case target of
                  FieldExpr field_index \<Rightarrow>
                    (case evaluate h field_index st1 of
                       (iv, st2) \<Rightarrow>
                         (let index = to_int h (to_number h iv) in
                          if op = ASSIGN then get_field h index (set_field h index v st2)
                          else
                            (case get_field h index st2 of
                               (old, st3) \<Rightarrow>
                                 get_field h index (set_field h index (arith h op old v) st3))))
                | VariableExpr name \<Rightarrow>
                    (let t = (if op = ASSIGN then v else arith h op (globals st1 name) v)
                     in (t, set_variable name t st1))
                | ArrayAccessExpr name indices \<Rightarrow>
                    (case evaluate_indices h indices st1 of
                       (idx_vals, st2) \<Rightarrow>
                         (let key = make_array_key idx_vals (SUBSEP st2) in
                          if name = ''SYMTAB'' then
                            (let t = (if op = ASSIGN then v
                                      else arith h op (globals st2 key) v)
                             in (t, set_variable key t st2))
                          else
                            (case array_access (globals st2 name) key of
                               (old, arr) \<Rightarrow>
                                 (let t = (if op = ASSIGN then v else arith h op old v)
                                  in (t, set_variable name (array_store arr key t) st2)))))
                | _ \<Rightarrow>
                    (let t = (if op = ASSIGN then v else arith h op Uninitialized v)
                     in (t, st1)))))"
| "evaluate_indices h [] st = ([], st)"
| "evaluate_indices h (idx # indices) st =
     (case evaluate h idx st of
        (v, st1) \<Rightarrow>
          (case evaluate_indices h indices st1 of (vs, st2) \<Rightarrow> (v # vs, st2)))"
| "evaluate_parts h [] st = ([], st)"
| "evaluate_parts h (part # parts) st =
     (case evaluate h part st of
        (v, st1) \<Rightarrow>
          (case evaluate_parts h parts st1 of (strs, st2) \<Rightarrow> (to_string v # strs, st2)))"
| "append_parts h name [] st = st"
| "append_parts h name (part # parts) st =
     (case evaluate h part st of
        (v, st1) \<Rightarrow>
          append_parts h name parts
            (set_variable name (append_string (globals st1 name) (to_string v)) st1))"
  by pat_completeness auto
termination
  by (relation "measure (\<lambda>x. case x of
          Inl (Inl (h, e, st)) \<Rightarrow> size e
        | Inl (Inr (h, es, st)) \<Rightarrow> size_list size es
        | Inr (Inl (h, es, st)) \<Rightarrow> size_list size es
        | Inr (Inr (h, name, es, st)) \<Rightarrow> size_list size es)")
     (auto dest: append_pattern_size)

section \<open>sub and gsub\<close>

text \<open>
  The branch of \<open>Interpreter::evaluate(CallExpr&)\<close> for the function names \<open>sub\<close> and
  \<open>gsub\<close>, in three parts. \<open>sub_gsub_target\<close> is the choice of the target text: the record
  when there is no third argument, else the variable, the field, or the value of any
  other expression.
\<close>

definition sub_gsub_target :: "libs \<Rightarrow> Expr list \<Rightarrow> interp \<Rightarrow> string \<times> interp" where
  "sub_gsub_target h rest st =
     (case rest of
        [] \<Rightarrow> (current_record st, st)
      | VariableExpr name # _ \<Rightarrow> (to_string (globals st name), st)
      | FieldExpr index # _ \<Rightarrow>
          (case evaluate h index st of
             (iv, st1) \<Rightarrow>
               (case get_field h (to_int h (to_number h iv)) st1 of
                  (fv, st2) \<Rightarrow> (to_string fv, st2)))
      | e # _ \<Rightarrow> (case evaluate h e st of (v, st1) \<Rightarrow> (to_string v, st1)))"

text \<open>"Write result back": to the record, the variable or the field; nowhere otherwise.\<close>

definition sub_gsub_write_back :: "libs \<Rightarrow> Expr list \<Rightarrow> string \<Rightarrow> interp \<Rightarrow> interp" where
  "sub_gsub_write_back h rest result st =
     (case rest of
        [] \<Rightarrow> set_record h result st
      | VariableExpr name # _ \<Rightarrow> set_variable name (String result) st
      | FieldExpr index # _ \<Rightarrow>
          (case evaluate h index st of
             (iv, st1) \<Rightarrow> set_field h (to_int h (to_number h iv)) (String result) st1)
      | e # _ \<Rightarrow> st)"

text \<open>
  The arguments are evaluated, the regex is taken from the cache
  (\<open>std::regex_error\<close> is reported and gives 0), \<open>sub\<close> counts by comparing the result with
  the target, \<open>gsub\<close> by its counting loop, and the result is written back when it
  differs from the target.
\<close>

definition evaluate_sub_gsub :: "libs \<Rightarrow> string \<Rightarrow> Expr list \<Rightarrow> interp \<Rightarrow> AWKValue \<times> interp" where
  "evaluate_sub_gsub h function_name arguments st =
     (case arguments of
        pattern_arg # replacement_arg # rest \<Rightarrow>
          (case evaluate h pattern_arg st of
             (pv, st1) \<Rightarrow>
               (case evaluate h replacement_arg st1 of
                  (rv, st2) \<Rightarrow>
                    (case sub_gsub_target h rest st2 of
                       (target_str, st3) \<Rightarrow>
                         (case get_cached_regex h (to_string pv) of
                            None \<Rightarrow>
                              (Number 0,
                               st3\<lparr> error_log := error_log st3
                                     @ [''awk: '' @ function_name @ '': invalid regex''] \<rparr>)
                          | Some re \<Rightarrow>
                              (let awk_replacement = convert_awk_replacement (to_string rv) False;
                                   result = regex_replace target_str re awk_replacement
                                              (function_name = ''sub'');
                                   count = (if function_name = ''sub''
                                            then (if result \<noteq> target_str then 1 else 0)
                                            else gsub_count re target_str 0 0);
                                   st4 = (if result \<noteq> target_str
                                          then sub_gsub_write_back h rest result st3 else st3)
                               in (Number (int count), st4))))))
      | _ \<Rightarrow> (Number 0, st))"

text \<open>
  The entries \<open>sub\<close> and \<open>gsub\<close> of the builtin table
  (interpreter_builtins_string.cpp), with their helpers \<open>prepare_sub_target\<close> and
  \<open>do_substitution\<close>; they receive their arguments by value.
\<close>

definition prepare_sub_target :: "AWKValue list \<Rightarrow> interp \<Rightarrow> string \<times> bool" where
  "prepare_sub_target args st =
     (if 3 \<le> length args \<and> args ! 2 \<noteq> Uninitialized then (to_string (args ! 2), False)
      else (current_record st, True))"

definition do_substitution :: "libs \<Rightarrow> string \<Rightarrow> string \<Rightarrow> string \<Rightarrow> bool \<Rightarrow> nat \<times> string" where
  "do_substitution h pattern replacement target global =
     (case get_cached_regex h pattern of
        None \<Rightarrow> (0, target)
      | Some re \<Rightarrow>
          (let awk_replacement = convert_awk_replacement replacement False in
           if global then
             (gsub_count re target 0 0, regex_replace target re awk_replacement False)
           else
             (let result = regex_replace target re awk_replacement True in
              if result \<noteq> target then (1, result) else (0, target))))"

definition builtin_sub_gsub :: "libs \<Rightarrow> bool \<Rightarrow> AWKValue list \<Rightarrow> interp \<Rightarrow> AWKValue \<times> interp" where
  "builtin_sub_gsub h global args st =
     (if length args < 2 then (Number 0, st)
      else
        (case prepare_sub_target args st of
           (target, modify_record) \<Rightarrow>
             (case do_substitution h (to_string (args ! 0)) (to_string (args ! 1)) target global of
                (count, target') \<Rightarrow>
                  (Number (int count),
                   if 0 < count \<and> modify_record then set_record h target' st else st))))"

section \<open>substr\<close>

text \<open>
  The entry \<open>substr\<close> of the builtin table. The start is cast to \<open>int\<close> and the length to
  \<open>size_t\<close>; the model has the numbers already truncated to integers. Without a third
  argument the length is \<open>npos\<close>, no bound (\<open>None\<close>).
\<close>

definition substr :: "libs \<Rightarrow> AWKValue list \<Rightarrow> AWKValue" where
  "substr h args =
     (if args = [] then String []
      else
        (let str = to_string (args ! 0);
             start = (if 1 < length args then to_int h (to_number h (args ! 1)) else 1);
             len = (if 2 < length args then Some (to_size_t h (to_number h (args ! 2)))
                    else None);
             start' = (if start < 1 then 1 else start);
             idx = nat (start' - 1)
         in if length str \<le> idx then String []
            else String (case len of None \<Rightarrow> drop idx str | Some n \<Rightarrow> take n (drop idx str))))"

section \<open>Statements and control flow\<close>

text \<open>
  The control-flow exceptions of interpreter.hpp, and \<open>StdException\<close> for any exception
  derived from \<open>std::exception\<close>. A statement or a stage either ends normally (\<open>None\<close>) or
  throws; the state it has reached is kept in both cases.
\<close>

datatype signal =
    BreakException
  | ContinueException
  | NextException
  | NextfileException
  | ReturnException AWKValue
  | ExitException int
  | StdException

text \<open>
  The statements whose execution is written out; loops, \<open>switch\<close>, \<open>printf\<close>, \<open>delete\<close>,
  redirected \<open>print\<close> and expression statements that call user functions are an
  \<open>OtherStmt\<close>, given by what \<open>execute\<close> does with them.
\<close>

datatype Stmt =
    BlockStmt "Stmt list"
  | IfStmt Expr Stmt "Stmt option"
  | PrintStmt "Expr list"
  | ExprStmt Expr
  | BreakStmt
  | ContinueStmt
  | NextStmt
  | NextfileStmt
  | ExitStmt "Expr option"
  | ReturnStmt "Expr option"
  | OtherStmt "interp \<Rightarrow> signal option \<times> interp"

text \<open>\<open>Interpreter::execute(Stmt&)\<close>; \<open>execute_block\<close> is the loop of \<open>execute(BlockStmt&)\<close>.\<close>

fun execute :: "libs \<Rightarrow> Stmt \<Rightarrow> interp \<Rightarrow> signal option \<times> interp"
  and execute_block :: "libs \<Rightarrow> Stmt list \<Rightarrow> interp \<Rightarrow> signal option \<times> interp"
where
  "execute h (BlockStmt statements) st = execute_block h statements st"
| "execute h (IfStmt condition then_branch else_branch) st =
     (case evaluate h condition st of
        (c, st1) \<Rightarrow>
          if is_truthy c then execute h then_branch st1
          else (case else_branch of
                  Some s \<Rightarrow> execute h s st1
                | None \<Rightarrow> (None, st1)))"
| "execute h (PrintStmt arguments) st =
     (if arguments = [] then
        (let st1 = rebuild_record st
         in (None, st1\<lparr> output_log := output_log st1 @ [current_record st1 @ ORS st1] \<rparr>))
      else
        (case evaluate_parts h arguments st of
           (strs, st1) \<Rightarrow>
             (None, st1\<lparr> output_log := output_log st1
                              @ [join_fields (OFS st) strs @ ORS st1] \<rparr>)))"
| "execute h (ExprStmt expression) st = (None, snd (evaluate h expression st))"
| "execute h BreakStmt st = (Some BreakException, st)"
| "execute h ContinueStmt st = (Some ContinueException, st)"
| "execute h NextStmt st = (Some NextException, st)"
| "execute h NextfileStmt st = (Some NextfileException, st)"
| "execute h (ExitStmt status) st =
     (case status of
        None \<Rightarrow> (Some (ExitException 0), st)
      | Some e \<Rightarrow>
          (case evaluate h e st of
             (v, st1) \<Rightarrow> (Some (ExitException (to_int h (to_number h v))), st1)))"
| "execute h (ReturnStmt val) st =
     (case val of
        None \<Rightarrow> (Some (ReturnException Uninitialized), st)
      | Some e \<Rightarrow> (case evaluate h e st of (v, st1) \<Rightarrow> (Some (ReturnException v), st1)))"
| "execute h (OtherStmt f) st = f st"
| "execute_block h [] st = (None, st)"
| "execute_block h (s # statements) st =
     (case execute h s st of
        (None, st1) \<Rightarrow> execute_block h statements st1
      | (Some sig, st1) \<Rightarrow> (Some sig, st1))"

section \<open>Patterns and rules\<close>

text \<open>
  \<open>Pattern\<close> and \<open>Rule\<close> of ast.hpp. \<open>range_active\<close> is a member of the pattern, so
  matching a rule returns its pattern as well. The parser gives an EXPRESSION or REGEX
  pattern its expression and a RANGE pattern both of its expressions.
\<close>

datatype PatternType = BEGIN | END | BEGINFILE | ENDFILE | EMPTY | EXPRESSION | REGEX | RANGE

record Pattern =
  pattern_type :: PatternType
  expr :: "Expr option"
  range_end :: "Expr option"
  range_active :: bool

record Rule =
  pattern :: Pattern
  action :: "Stmt option"

text \<open>\<open>Interpreter::regex_match\<close>: an invalid regex is reported and does not match.\<close>

definition regex_match :: "libs \<Rightarrow> AWKValue \<Rightarrow> AWKValue \<Rightarrow> interp \<Rightarrow> bool \<times> interp" where
  "regex_match h text pat st =
     (case get_cached_regex h (to_string pat) of
        None \<Rightarrow> (False, st\<lparr> error_log := error_log st @ [''awk: invalid regex''] \<rparr>)
      | Some re \<Rightarrow> (regex_search re match_default (to_string text) 0 \<noteq> None, st))"

text \<open>
  The lambda \<open>eval_range_expr\<close> of \<open>pattern_matches\<close>: a regex literal is matched against
  the record, any other expression is evaluated for its truth.
\<close>

definition eval_range_expr :: "libs \<Rightarrow> Expr \<Rightarrow> interp \<Rightarrow> bool \<times> interp" where
  "eval_range_expr h e st =
     (case e of
        RegexExpr p \<Rightarrow>
          (case evaluate h (RegexExpr p) st of
             (regex_val, st1) \<Rightarrow> regex_match h (String (current_record st1)) regex_val st1)
      | _ \<Rightarrow> (case evaluate h e st of (v, st1) \<Rightarrow> (is_truthy v, st1)))"

text \<open>\<open>Interpreter::pattern_matches\<close>.\<close>

definition pattern_matches :: "libs \<Rightarrow> Pattern \<Rightarrow> interp \<Rightarrow> bool \<times> Pattern \<times> interp" where
  "pattern_matches h pat st =
     (case pattern_type pat of
        EMPTY \<Rightarrow> (True, pat, st)
      | EXPRESSION \<Rightarrow>
          (case expr pat of
             Some e \<Rightarrow> (case evaluate h e st of (v, st1) \<Rightarrow> (is_truthy v, pat, st1))
           | None \<Rightarrow> (False, pat, st))
      | REGEX \<Rightarrow>
          (case expr pat of
             Some e \<Rightarrow>
               (case evaluate h e st of
                  (regex_val, st1) \<Rightarrow>
                    (case regex_match h (String (current_record st1)) regex_val st1 of
                       (m, st2) \<Rightarrow> (m, pat, st2)))
           | None \<Rightarrow> (False, pat, st))
      | RANGE \<Rightarrow>
          (case (expr pat, range_end pat) of
             (Some start_expr, Some end_expr) \<Rightarrow>
               if range_active pat then
                 (case eval_range_expr h end_expr st of
                    (end_matches, st1) \<Rightarrow>
                      (True, if end_matches then pat\<lparr> range_active := False \<rparr> else pat, st1))
               else
                 (case eval_range_expr h start_expr st of
                    (start_matches, st1) \<Rightarrow>
                      if start_matches then
                        (case eval_range_expr h end_expr st1 of
                           (end_matches, st2) \<Rightarrow>
                             (True,
                              if \<not> end_matches then pat\<lparr> range_active := True \<rparr> else pat,
                              st2))
                      else (False, pat, st1))
           | _ \<Rightarrow> (False, pat, st))
      | _ \<Rightarrow> (False, pat, st))"

text \<open>
  \<open>execute_begin_rules\<close>, \<open>execute_end_rules\<close>, \<open>execute_beginfile_rules\<close> and
  \<open>execute_endfile_rules\<close> are the same loop over the rules, for one pattern type each.
\<close>

fun execute_special_rules :: "libs \<Rightarrow> PatternType \<Rightarrow> Rule list \<Rightarrow> interp \<Rightarrow> signal option \<times> interp" where
  "execute_special_rules h ty [] st = (None, st)"
| "execute_special_rules h ty (rule # rules) st =
     (if pattern_type (pattern rule) = ty then
        (case action rule of
           Some a \<Rightarrow>
             (case execute h a st of
                (None, st1) \<Rightarrow> execute_special_rules h ty rules st1
              | (Some sig, st1) \<Rightarrow> (Some sig, st1))
         | None \<Rightarrow> execute_special_rules h ty rules st)
      else execute_special_rules h ty rules st)"

definition execute_begin_rules :: "libs \<Rightarrow> Rule list \<Rightarrow> interp \<Rightarrow> signal option \<times> interp" where
  "execute_begin_rules h rules st = execute_special_rules h BEGIN rules st"

definition execute_end_rules :: "libs \<Rightarrow> Rule list \<Rightarrow> interp \<Rightarrow> signal option \<times> interp" where
  "execute_end_rules h rules st = execute_special_rules h END rules st"

definition execute_beginfile_rules :: "libs \<Rightarrow> Rule list \<Rightarrow> interp \<Rightarrow> signal option \<times> interp" where
  "execute_beginfile_rules h rules st = execute_special_rules h BEGINFILE rules st"

definition execute_endfile_rules :: "libs \<Rightarrow> Rule list \<Rightarrow> interp \<Rightarrow> signal option \<times> interp" where
  "execute_endfile_rules h rules st = execute_special_rules h ENDFILE rules st"

text \<open>
  \<open>Interpreter::execute_main_rules\<close>. A rule without action prints the record. The rules
  are returned with the patterns as matching has left them.
\<close>

definition is_special :: "PatternType \<Rightarrow> bool" where
  "is_special ty = (ty = BEGIN \<or> ty = END \<or> ty = BEGINFILE \<or> ty = ENDFILE)"

fun execute_main_rules :: "libs \<Rightarrow> Rule list \<Rightarrow> interp \<Rightarrow> signal option \<times> Rule list \<times> interp" where
  "execute_main_rules h [] st = (None, [], st)"
| "execute_main_rules h (rule # rules) st =
     (if is_special (pattern_type (pattern rule)) then
        (case execute_main_rules h rules st of (sig, rules', st') \<Rightarrow> (sig, rule # rules', st'))
      else
        (case pattern_matches h (pattern rule) st of
           (matches, pat', st1) \<Rightarrow>
             (let rule' = rule\<lparr> pattern := pat' \<rparr> in
              if matches then
                (case action rule of
                   Some a \<Rightarrow>
                     (case execute h a st1 of
                        (Some sig, st2) \<Rightarrow> (Some sig, rule' # rules, st2)
                      | (None, st2) \<Rightarrow>
                          (case execute_main_rules h rules st2 of
                             (sig, rules', st') \<Rightarrow> (sig, rule' # rules', st')))
                 | None \<Rightarrow>
                     (case execute_main_rules h rules
                             (st1\<lparr> output_log := output_log st1
                                     @ [current_record st1 @ ORS st1] \<rparr>) of
                        (sig, rules', st') \<Rightarrow> (sig, rule' # rules', st')))
              else
                (case execute_main_rules h rules st1 of
                   (sig, rules', st') \<Rightarrow> (sig, rule' # rules', st')))))"

section \<open>The run protocol\<close>

text \<open>
  An input stream is modelled by the records \<open>read_record\<close> will read from it, in order.
  \<open>read_record\<close> on a record that was read: the record is stored, the counters are
  advanced, the fields are parsed.
\<close>

definition read_record :: "libs \<Rightarrow> string \<Rightarrow> interp \<Rightarrow> interp" where
  "read_record h r st =
     parse_fields h
       (st\<lparr> current_record := r, NR := NR st + 1, FNR := FNR st + 1, record_dirty := True \<rparr>)"

text \<open>
  \<open>Interpreter::process_stream\<close>: the record loop, which catches \<open>NextException\<close>. The read
  that fails at the end of the input leaves the fields and the counters as they are.
\<close>

fun process_stream :: "libs \<Rightarrow> Rule list \<Rightarrow> string list \<Rightarrow> interp \<Rightarrow> signal option \<times> Rule list \<times> interp" where
  "process_stream h rules [] st =
     (None, rules, if clears_record_at_end h then st\<lparr> current_record := [] \<rparr> else st)"
| "process_stream h rules (r # input) st =
     (case execute_main_rules h rules (read_record h r st) of
        (None, rules1, st1) \<Rightarrow> process_stream h rules1 input st1
      | (Some sig, rules1, st1) \<Rightarrow>
          if sig = NextException then process_stream h rules1 input st1
          else (Some sig, rules1, st1))"

text \<open>
  \<open>Interpreter::process_file\<close>; \<open>files\<close> gives the records of each file that can be opened.
\<close>

definition process_file ::
  "libs \<Rightarrow> Rule list \<Rightarrow> (string \<Rightarrow> string list option) \<Rightarrow> string \<Rightarrow> interp
     \<Rightarrow> signal option \<times> Rule list \<times> interp" where
  "process_file h rules files filename st =
     (case files filename of
        None \<Rightarrow>
          (None, rules, st\<lparr> error_log := error_log st @ [''awk: can't open file '' @ filename] \<rparr>)
      | Some input \<Rightarrow>
          (case execute_beginfile_rules h rules (st\<lparr> FILENAME := filename, FNR := 0 \<rparr>) of
             (Some sig, st1) \<Rightarrow> (Some sig, rules, st1)
           | (None, st1) \<Rightarrow>
               (case process_stream h rules input st1 of
                  (Some sig, rules1, st2) \<Rightarrow> (Some sig, rules1, st2)
                | (None, rules1, st2) \<Rightarrow>
                    (case execute_endfile_rules h rules1 st2 of
                       (sig, st3) \<Rightarrow> (sig, rules1, st3)))))"

text \<open>The loop over the input files in \<open>run\<close>, which catches \<open>NextfileException\<close>.\<close>

fun process_files ::
  "libs \<Rightarrow> Rule list \<Rightarrow> (string \<Rightarrow> string list option) \<Rightarrow> string list \<Rightarrow> interp
     \<Rightarrow> signal option \<times> Rule list \<times> interp" where
  "process_files h rules files [] st = (None, rules, st)"
| "process_files h rules files (filename # input_files) st =
     (case process_file h rules files filename st of
        (None, rules1, st1) \<Rightarrow> process_files h rules1 files input_files st1
      | (Some sig, rules1, st1) \<Rightarrow>
          if sig = NextfileException then process_files h rules1 files input_files st1
          else (Some sig, rules1, st1))"

text \<open>\<open>Interpreter::cleanup_io\<close> clears the stream registries.\<close>

definition cleanup_io :: "interp \<Rightarrow> interp" where
  "cleanup_io st = st\<lparr> open_streams := [] \<rparr>"

text \<open>
  \<open>Interpreter::run\<close>. \<open>process_input\<close> is the middle of its try block (standard input
  when there is no file), \<open>run_stages\<close> the whole try block, \<open>run\<close> the function: it catches
  \<open>ExitException\<close> and closes the streams; any other exception leaves \<open>run\<close>. Registering the
  functions and setting \<open>ARGV\<close> are not modelled.
\<close>

definition process_input ::
  "libs \<Rightarrow> Rule list \<Rightarrow> string list \<Rightarrow> (string \<Rightarrow> string list option) \<Rightarrow> string list \<Rightarrow> interp
     \<Rightarrow> signal option \<times> Rule list \<times> interp" where
  "process_input h rules input_files files stdin st =
     (if input_files = [] then process_stream h rules stdin (st\<lparr> FILENAME := [] \<rparr>)
      else process_files h rules files input_files st)"

definition run_stages ::
  "libs \<Rightarrow> Rule list \<Rightarrow> string list \<Rightarrow> (string \<Rightarrow> string list option) \<Rightarrow> string list \<Rightarrow> interp
     \<Rightarrow> signal option \<times> Rule list \<times> interp" where
  "run_stages h rules input_files files stdin st =
     (case execute_begin_rules h rules st of
        (Some sig, st1) \<Rightarrow> (Some sig, rules, st1)
      | (None, st1) \<Rightarrow>
          (case process_input h rules input_files files stdin st1 of
             (Some sig, rules1, st2) \<Rightarrow> (Some sig, rules1, st2)
           | (None, rules1, st2) \<Rightarrow>
               (case execute_end_rules h rules1 st2 of (sig, st3) \<Rightarrow> (sig, rules1, st3))))"

definition run ::
  "libs \<Rightarrow> Rule list \<Rightarrow> string list \<Rightarrow> (string \<Rightarrow> string list option) \<Rightarrow> string list \<Rightarrow> interp
     \<Rightarrow> signal option \<times> Rule list \<times> interp" where
  "run h rules input_files files stdin st =
     (case run_stages h rules input_files files stdin st of
        (None, rules1, st1) \<Rightarrow> (None, rules1, cleanup_io st1)
      | (Some sig, rules1, st1) \<Rightarrow>
          (case sig of
             ExitException status \<Rightarrow> (None, rules1, cleanup_io st1)
           | _ \<Rightarrow> (Some sig, rules1, st1)))"

text \<open>
  The end of \<open>main\<close> (main.cpp) once the options are read: 1 after a parse error, 0 when
  \<open>run\<close> returns, 1 when it throws a \<open>std::exception\<close>; an exception of any other type is
  not caught and terminates the process.
\<close>

datatype process_end = Returned int | Terminated

definition main ::
  "libs \<Rightarrow> bool \<Rightarrow> Rule list \<Rightarrow> string list \<Rightarrow> (string \<Rightarrow> string list option) \<Rightarrow> string list
     \<Rightarrow> interp \<Rightarrow> process_end" where
  "main h had_error rules input_files files stdin st =
     (if had_error then Returned 1
      else
        (case run h rules input_files files stdin st of
           (None, rules1, st1) \<Rightarrow> Returned 0
         | (Some sig, rules1, st1) \<Rightarrow> if sig = StdException then Returned 1 else Terminated))"

section \<open>A regex engine and an interpreter for the examples\<close>

text \<open>
  The engine of a pattern without metacharacters, optionally anchored by \<open>^\<close>: the
  leftmost occurrence of the text. An anchored pattern matches only at the start of the
  searched range, and not at all under \<open>match_prev_avail\<close>, as \<open>^\<close> does in \<open>std::regex\<close>.
\<close>

fun find_literal :: "string \<Rightarrow> string \<Rightarrow> nat option" where
  "find_literal pat [] = (if pat = [] then Some 0 else None)"
| "find_literal pat (c # cs) =
     (if take (length pat) (c # cs) = pat then Some 0
      else map_option Suc (find_literal pat cs))"

definition literal_regex :: "bool \<Rightarrow> string \<Rightarrow> regex" where
  "literal_regex anchored pat f pre t =
     (if match_not_null f \<and> pat = [] then None
      else if anchored \<and> match_prev_avail f then None
      else if anchored \<or> match_continuous f then
        (if take (length pat) t = pat then Some (0, length pat) else None)
      else map_option (\<lambda>i. (i, length pat)) (find_literal pat t))"

definition compile_literal :: "string \<Rightarrow> regex option" where
  "compile_literal p =
     (case p of
        [] \<Rightarrow> Some (literal_regex False [])
      | c # cs \<Rightarrow> if c = CHR ''^'' then Some (literal_regex True cs)
                  else Some (literal_regex False p))"

text \<open>
  The interpreter as constructed, and libraries for the examples: the default field
  splitter, the engine above, inputs that end with their terminator, and the x86-64
  conversions of an out-of-range double: to \<open>size_t\<close> it wraps modulo \<open>2^64\<close>, to \<open>int\<close> it
  gives \<open>INT_MIN\<close>. The examples use neither arithmetic nor numeric strings nor function
  names.
\<close>

definition new_interp :: interp where
  "new_interp =
     \<lparr> current_record = [], fields_vec = [], field_values = [], field_values_valid = [],
       record_dirty = False, fields_dirty = False, NF = 0, NR = 0, FNR = 0,
       FILENAME = [], OFS = '' '', ORS = [CHR 0x0A], SUBSEP = [CHR 0x1C],
       globals = (\<lambda>_. Uninitialized),
       output_log = [], error_log = [], open_streams = [] \<rparr>"

definition default_libs :: libs where
  "default_libs =
     \<lparr> field_splitter = (\<lambda>st. split_whitespace [] (current_record st)),
       arith = (\<lambda>op a b. b),
       string_to_number = (\<lambda>s. 0),
       get_cached_regex = compile_literal,
       has_function = (\<lambda>name. False),
       size_t_out_of_range = (\<lambda>v. nat (v mod 2 ^ 64)),
       int_out_of_range = (\<lambda>v. - (2 ^ 31)),
       clears_record_at_end = True \<rparr>"

text \<open>The rule \<open>/BEGIN/,/END/\<close> with the default action, and the scenario of the spec.\<close>

definition range_rule :: Rule where
  "range_rule =
     \<lparr> pattern = \<lparr> pattern_type = RANGE, expr = Some (RegexExpr ''BEGIN''),
                   range_end = Some (RegexExpr ''END''), range_active = False \<rparr>,
       action = None \<rparr>"

text \<open>Programs and files for the examples.\<close>

definition print_literal :: "string \<Rightarrow> Stmt" where
  "print_literal s = PrintStmt [LiteralExpr (StringLiteral s)]"

definition special_rule :: "PatternType \<Rightarrow> Stmt list \<Rightarrow> Rule" where
  "special_rule ty statements =
     \<lparr> pattern = \<lparr> pattern_type = ty, expr = None, range_end = None, range_active = False \<rparr>,
       action = Some (BlockStmt statements) \<rparr>"

definition no_files :: "string \<Rightarrow> string list option" where
  "no_files name = None"

definition one_file :: "string \<Rightarrow> string list option" where
  "one_file name = (if name = ''f'' then Some [''x'', ''y''] else None)"

section \<open>Replacing every match by itself\<close>

text \<open>
  The matches of an iterator lie one after the other inside the text, so replacing each
  by itself rebuilds the text.
\<close>

fun chain :: "nat \<Rightarrow> nat \<Rightarrow> (nat \<times> nat) list \<Rightarrow> bool" where
  "chain n e [] = True"
| "chain n e ((p, l) # ms) = (e \<le> p \<and> p + l \<le> n \<and> chain n (p + l) ms)"

lemma regex_iterator_from_chain:
  "e \<le> fst m \<Longrightarrow> fst m + snd m \<le> length s \<Longrightarrow> chain (length s) e (regex_iterator_from re s pa m)"
proof (induction re s pa m arbitrary: e rule: regex_iterator_from.induct)
  case (1 re s pa m)
  obtain p l where m: "m = (p, l)" by (cases m)
  have here: "e \<le> p" "p + l \<le> length s" using "1.prems" m by auto
  show ?case
  proof (cases "regex_iterator_incr re s pa m")
    case None
    have "regex_iterator_from re s pa m = [m]"
      by (subst regex_iterator_from.simps) (simp add: None)
    then show ?thesis using here m by simp
  next
    case (Some a)
    then obtain p' l' pa' where S: "regex_iterator_incr re s pa m = Some ((p', l'), pa')"
      by (cases a) auto
    from regex_iterator_incr_bounds [OF S [unfolded m]]
    have b: "p + l \<le> p'" "p' + l' \<le> length s" by auto
    have c: "chain (length s) (p + l) (regex_iterator_from re s pa' (p', l'))"
      by (rule "1.IH" [OF S refl]) (simp_all add: b)
    have "regex_iterator_from re s pa m = m # regex_iterator_from re s pa' (p', l')"
      by (subst regex_iterator_from.simps) (simp add: S)
    then show ?thesis using here m c by simp
  qed
qed

lemma regex_iterator_chain: "chain (length s) 0 (regex_iterator re s)"
  by (auto simp add: regex_iterator_def split: option.splits
      intro!: regex_iterator_from_chain dest!: regex_search_bounds)

lemma chain_take: "chain n e ms \<Longrightarrow> chain n e (take k ms)"
  by (induction n e ms arbitrary: k rule: chain.induct) (auto simp add: take_Cons')

lemma format_whole_match: "format ''$&'' pre m suf = m"
  by simp

lemma replace_loop_whole_match:
  "chain (length s) e ms \<Longrightarrow> replace_loop s ''$&'' e ms = drop e s"
proof (induction "length s" e ms rule: chain.induct)
  case (1 e)
  then show ?case by simp
next
  case (2 e p l ms)
  then have IH: "replace_loop s ''$&'' (p + l) ms = drop (p + l) s" and b: "e \<le> p" "p + l \<le> length s"
    by auto
  have "take (p - e) (drop e s) @ take l (drop p s) @ drop (p + l) s = drop e s"
  proof -
    have "take l (drop p s) @ drop (p + l) s = drop p s"
      by (metis append_take_drop_id drop_drop add.commute)
    moreover have "take (p - e) (drop e s) @ drop p s = drop e s"
      using b by (metis append_take_drop_id drop_drop le_add_diff_inverse2)
    ultimately show ?thesis by simp
  qed
  then show ?case using IH by simp
qed

lemma regex_replace_whole_match: "regex_replace s re ''$&'' b = s"
  using replace_loop_whole_match [of s 0] regex_iterator_chain [of s re] chain_take
  by (auto simp add: regex_replace_def)

section \<open>Assignment that appends in place\<close>

text \<open>
  An expression is independent of the variable \<open>x\<close> when evaluating it neither depends on
  \<open>x\<close> nor writes it.
\<close>

definition independent :: "libs \<Rightarrow> string \<Rightarrow> Expr \<Rightarrow> bool" where
  "independent h x e =
     (\<forall>st v. evaluate h e (set_variable x v st)
              = (fst (evaluate h e st), set_variable x v (snd (evaluate h e st))))"

lemma set_variable_same [simp]: "set_variable x (globals st x) st = st"
  by (simp add: set_variable_def)

lemma set_variable_twice [simp]: "set_variable x v (set_variable x w st) = set_variable x v st"
  by (simp add: set_variable_def)

lemma globals_set_variable [simp]: "globals (set_variable x v st) x = v"
  by (simp add: set_variable_def)

lemma independent_preserves:
  assumes "independent h x e"
  shows "globals (snd (evaluate h e st)) x = globals st x"
proof -
  have "evaluate h e (set_variable x (globals st x) st)
        = (fst (evaluate h e st), set_variable x (globals st x) (snd (evaluate h e st)))"
    using assms unfolding independent_def by blast
  then have "snd (evaluate h e (set_variable x (globals st x) st))
        = set_variable x (globals st x) (snd (evaluate h e st))"
    by (simp only: snd_conv)
  then have "snd (evaluate h e st) = set_variable x (globals st x) (snd (evaluate h e st))"
    by (simp only: set_variable_same)
  then have "globals (snd (evaluate h e st)) x
             = globals (set_variable x (globals st x) (snd (evaluate h e st))) x"
    by (rule arg_cong)
  then show ?thesis by (simp only: globals_set_variable)
qed

lemma evaluate_parts_independent:
  "\<forall>e \<in> set es. independent h x e \<Longrightarrow>
   evaluate_parts h es (set_variable x v st)
   = (fst (evaluate_parts h es st), set_variable x v (snd (evaluate_parts h es st)))"
proof (induction es arbitrary: st)
  case Nil
  then show ?case by simp
next
  case (Cons e es)
  then have e: "evaluate h e (set_variable x v st)
        = (fst (evaluate h e st), set_variable x v (snd (evaluate h e st)))"
    unfolding independent_def by simp
  show ?case using Cons e by (simp add: split_beta)
qed

lemma append_parts_independent:
  "\<forall>e \<in> set (e0 # es). independent h x e \<Longrightarrow>
   append_parts h x (e0 # es) st
   = set_variable x
       (String (to_string (globals st x) @ concat (fst (evaluate_parts h (e0 # es) st))))
       (snd (evaluate_parts h (e0 # es) st))"
proof (induction es arbitrary: e0 st)
  case Nil
  obtain v0 s0 where ev0: "evaluate h e0 st = (v0, s0)" by (cases "evaluate h e0 st")
  have keep: "globals s0 x = globals st x"
    using independent_preserves [of h x e0 st] Nil.prems ev0 by simp
  show ?case by (simp add: ev0 keep append_string_def)
next
  case (Cons e es)
  obtain v0 s0 where ev0: "evaluate h e0 st = (v0, s0)" by (cases "evaluate h e0 st")
  have keep: "globals s0 x = globals st x"
    using independent_preserves [of h x e0 st] Cons.prems ev0 by simp
  have rest: "\<forall>e \<in> set (e # es). independent h x e" using Cons.prems by simp
  define A where "A = append_string (globals st x) (to_string v0)"
  obtain strs s1 where P: "evaluate_parts h (e # es) s0 = (strs, s1)"
    by (cases "evaluate_parts h (e # es) s0")
  have comm: "evaluate_parts h (e # es) (set_variable x A s0) = (strs, set_variable x A s1)"
    using evaluate_parts_independent [OF rest, of A s0] P by simp
  have step: "append_parts h x (e0 # e # es) st = append_parts h x (e # es) (set_variable x A s0)"
    by (simp add: ev0 keep A_def)
  have "append_parts h x (e # es) (set_variable x A s0)
        = set_variable x (String (to_string A @ concat strs)) (set_variable x A s1)"
    by (simp only: Cons.IH [OF rest] comm fst_conv snd_conv globals_set_variable)
  also have "\<dots> = set_variable x (String (to_string A @ concat strs)) s1"
    by simp
  finally have L: "append_parts h x (e0 # e # es) st
        = set_variable x (String (to_string A @ concat strs)) s1"
    using step by simp
  have R: "evaluate_parts h (e0 # e # es) st = (to_string v0 # strs, s1)"
    using ev0 P by (simp del: evaluate_parts.simps add: evaluate_parts.simps(2) [of h e0])
  show ?case
    by (simp only: L R fst_conv snd_conv) (simp add: A_def append_string_def)
qed

text \<open>
  Reading a field after assigning it, and reading an array element after storing it.
  \<open>parse_fields\<close> leaves a parsed record as it is; a negative index is given up by
  \<open>set_field\<close> and read as the empty string by \<open>get_field\<close>; in a state whose two caches are
  of one length, as \<open>get_field\<close> keeps them, the field assigned is read back as the strnum
  of the text stored.
\<close>

lemma parse_fields_twice: "parse_fields h (parse_fields h st) = parse_fields h st"
  by (simp add: parse_fields_def)

lemma length_field_values_parse_fields:
  "length (field_values (parse_fields h st)) = length (field_values st)"
  by (simp add: parse_fields_def)

lemma length_field_values_valid_parse_fields:
  "length (field_values_valid (parse_fields h st)) = length (field_values_valid st)"
  by (simp add: parse_fields_def)

lemma length_resize: "length (resize n d xs) = n"
  by (simp add: resize_def)

lemma length_extend_fields: "nat index \<le> length (extend_fields index fs)"
  by (simp add: extend_fields_def)

lemma extend_fields_same: "nat index \<le> length fs \<Longrightarrow> extend_fields index fs = fs"
  by (simp add: extend_fields_def)

lemma get_field_negative: "index < 0 \<Longrightarrow> get_field h index st = (String [], parse_fields h st)"
  by (simp add: get_field_def)

lemma set_field_negative: "index < 0 \<Longrightarrow> set_field h index v st = parse_fields h st"
  by (simp add: set_field_def)

lemma get_set_field_zero:
  "get_field h 0 (set_field h 0 v st)
   = (Strnum (to_string v),
      parse_fields h ((parse_fields h st)\<lparr> current_record := to_string v, record_dirty := True \<rparr>))"
  by (simp add: get_field_def set_field_def parse_fields_def rebuild_record_def)

lemma get_field_lengths:
  assumes "length (field_values st) = length (field_values_valid st)"
  shows "length (field_values (snd (get_field h index st)))
         = length (field_values_valid (snd (get_field h index st)))"
proof -
  define st1 where "st1 = parse_fields h st"
  have inv: "length (field_values st1) = length (field_values_valid st1)"
    using assms
    by (simp add: st1_def length_field_values_parse_fields length_field_values_valid_parse_fields)
  have "length (field_values (snd (get_field h index st)))
         = length (field_values_valid (snd (get_field h index st)))"
    unfolding get_field_def st1_def [symmetric]
    using inv by (simp add: Let_def length_resize rebuild_record_def)
  then show ?thesis .
qed

lemma get_set_field_positive:
  assumes "0 < index" and "length (field_values st) = length (field_values_valid st)"
  shows "fst (get_field h index (set_field h index v st)) = Strnum (to_string v)
       \<and> fields_vec (snd (get_field h index (set_field h index v st))) ! nat (index - 1)
           = to_string v"
proof -
  define st1 where "st1 = parse_fields h st"
  define fs where "fs = (extend_fields index (fields_vec st1))[nat (index - 1) := to_string v]"
  define valid where "valid = (if int (length (field_values_valid st1)) \<ge> index
                      then (field_values_valid st1)[nat (index - 1) := False]
                      else field_values_valid st1)"
  define st2 where "st2 = st1\<lparr> fields_vec := fs, fields_dirty := True,
      field_values_valid := valid, NF := int (length fs) \<rparr>"
  have inv: "length (field_values st1) = length (field_values_valid st1)"
    using assms(2)
    by (simp add: st1_def length_field_values_parse_fields length_field_values_valid_parse_fields)
  have s: "set_field h index v st = st2"
    using assms(1) unfolding set_field_def st1_def [symmetric]
    by (simp add: Let_def st2_def fs_def valid_def)
  have clean: "\<not> record_dirty st2"
    by (simp add: st2_def st1_def parse_fields_def)
  have p: "parse_fields h st2 = st2"
    using clean by (simp add: parse_fields_def)
  have lfs: "nat index \<le> length fs"
    by (simp add: fs_def length_extend_fields)
  have idx: "nat (index - 1) < length fs"
    using lfs assms(1) by simp
  have e: "extend_fields index fs = fs"
    using lfs by (rule extend_fields_same)
  have fsv: "fs ! nat (index - 1) = to_string v"
  proof -
    have "nat (index - 1) < length (extend_fields index (fields_vec st1))"
      using length_extend_fields [of index "fields_vec st1"] assms(1) by simp
    then show ?thesis by (simp add: fs_def)
  qed
  have lv: "length valid = length (field_values st1)"
    using inv by (simp add: valid_def)
  have inval: "nat (index - 1) < length valid \<Longrightarrow> \<not> valid ! nat (index - 1)"
    using assms(1) by (auto simp add: valid_def)
  define valid2 where "valid2 = (if length (field_values st2) < length fs
      then resize (length fs) False valid else valid)"
  have v2: "\<not> valid2 ! nat (index - 1)"
  proof (cases "length (field_values st2) < length fs")
    case True
    then have "valid2 = valid @ replicate (length fs - length valid) False"
      using lv by (simp add: valid2_def resize_def st2_def)
    then show ?thesis using inval idx by (simp add: nth_append)
  next
    case False
    then have "nat (index - 1) < length valid"
      using idx lv by (simp add: st2_def)
    then show ?thesis using False inval by (simp add: valid2_def)
  qed
  define vals2 where "vals2 = (if length (field_values st2) < length fs
      then resize (length fs) Uninitialized (field_values st2) else field_values st2)"
  have lvals2: "nat (index - 1) < length vals2"
    using idx by (simp add: vals2_def length_resize)
  have g: "get_field h index st2
      = (vals2[nat (index - 1) := Strnum (fs ! nat (index - 1))] ! nat (index - 1),
         st2\<lparr> fields_vec := fs,
              field_values := vals2[nat (index - 1) := Strnum (fs ! nat (index - 1))],
              field_values_valid := valid2[nat (index - 1) := True] \<rparr>)"
  proof -
    have f2: "fields_vec st2 = fs" and vv: "field_values_valid st2 = valid"
      by (simp_all add: st2_def)
    have "get_field h index st2
      = (let idx = nat (index - 1);
             vals' = (if \<not> valid2 ! idx then vals2[idx := Strnum (fs ! idx)] else vals2);
             valid' = (if \<not> valid2 ! idx then valid2[idx := True] else valid2)
         in (vals' ! idx,
             st2\<lparr> fields_vec := fs, field_values := vals', field_values_valid := valid' \<rparr>))"
      using assms(1) unfolding get_field_def p
      by (simp add: Let_def f2 vv e valid2_def vals2_def)
    then show ?thesis
      using v2 by (simp add: Let_def)
  qed
  show ?thesis
    unfolding s g using lvals2 fsv by simp
qed

lemma map_of_array_store:
  "key \<in> fst ` set m \<Longrightarrow>
   map_of (map (\<lambda>(k, w). if k = key then (k, v) else (k, w)) m) key = Some v"
proof (induction m)
  case Nil
  then show ?case by simp
next
  case (Cons a m)
  obtain k w where a: "a = (k, w)" by (cases a)
  show ?case
  proof (cases "k = key")
    case True
    then show ?thesis by (simp add: a)
  next
    case False
    then have "key \<in> fst ` set m" using Cons.prems by (auto simp add: a)
    then show ?thesis using False Cons.IH by (simp add: a)
  qed
qed

lemma array_access_store:
  assumes "array_access a key = (old, arr)"
  shows "fst (array_access (array_store arr key v) key) = v"
proof -
  define m where "m = (case a of Array m \<Rightarrow> m | _ \<Rightarrow> [])"
  have "\<exists>m'. arr = Array m' \<and> key \<in> fst ` set m'"
  proof (cases "map_of m key")
    case None
    then have "arr = Array (m @ [(key, Uninitialized)])"
      using assms unfolding array_access_def m_def [symmetric] by (simp add: Let_def)
    then show ?thesis by simp
  next
    case (Some w)
    then have "arr = Array m"
      using assms unfolding array_access_def m_def [symmetric] by (simp add: Let_def)
    moreover have "key \<in> fst ` set m"
      using Some by (metis map_of_eq_None_iff option.distinct(1))
    ultimately show ?thesis by simp
  qed
  then obtain m' where a: "arr = Array m'" and k: "key \<in> fst ` set m'" by blast
  show ?thesis
    by (simp add: a array_store_def array_access_def map_of_array_store [OF k])
qed


lemma current_record_parse_fields: "current_record (parse_fields h st) = current_record st"
  by (simp add: parse_fields_def)

lemma assign_array_element:
  "(let r = evaluate h (AssignExpr (ArrayAccessExpr name indices) op val) st;
        ix = evaluate_indices h indices (snd (evaluate h val st));
        key = make_array_key (fst ix) (SUBSEP (snd ix))
    in fst r = (if name = ''SYMTAB'' then globals (snd r) key
                else fst (array_access (globals (snd r) name) key))
       \<and> (op = ASSIGN \<longrightarrow> fst r = fst (evaluate h val st)))"
proof -
  obtain v st1 where V: "evaluate h val st = (v, st1)" by (cases "evaluate h val st")
  obtain ivs st2 where I: "evaluate_indices h indices st1 = (ivs, st2)"
    by (cases "evaluate_indices h indices st1")
  define key where "key = make_array_key ivs (SUBSEP st2)"
  obtain old arr where A: "array_access (globals st2 name) key = (old, arr)"
    by (cases "array_access (globals st2 name) key")
  define t where "t = (if op = ASSIGN then v else arith h op old v)"
  have n: "append_pattern (ArrayAccessExpr name indices) op val = None"
    by (simp add: append_pattern_def)
  have r: "evaluate h (AssignExpr (ArrayAccessExpr name indices) op val) st
       = (if name = ''SYMTAB'' then
            (let t = (if op = ASSIGN then v else arith h op (globals st2 key) v)
             in (t, set_variable key t st2))
          else (t, set_variable name (array_store arr key t) st2))"
    by (simp add: n V I key_def [symmetric] A t_def Let_def)
  have s: "fst (array_access (array_store arr key t) key) = t"
    by (rule array_access_store [OF A])
  show ?thesis
    unfolding r using s
    by (simp add: V I key_def [symmetric] Let_def t_def)
qed

lemma assign_field:
  "(let v = fst (evaluate h val st);
        ie = evaluate h idx (snd (evaluate h val st));
        i = to_int h (to_number h (fst ie));
        st2 = snd ie;
        t = (if op = ASSIGN then v else arith h op (fst (get_field h i st2)) v);
        r = evaluate h (AssignExpr (FieldExpr idx) op val) st
    in (i < 0 \<longrightarrow> r = (String [], parse_fields h st2))
     \<and> (i = 0 \<longrightarrow> fst r = Strnum (to_string t) \<and> current_record (snd r) = to_string t)
     \<and> (0 < i \<and> length (field_values st2) = length (field_values_valid st2) \<longrightarrow>
          fst r = Strnum (to_string t) \<and> fields_vec (snd r) ! nat (i - 1) = to_string t))"
proof -
  obtain v st1 where V: "evaluate h val st = (v, st1)" by (cases "evaluate h val st")
  obtain iv st2 where I: "evaluate h idx st1 = (iv, st2)" by (cases "evaluate h idx st1")
  define i where "i = to_int h (to_number h iv)"
  obtain old st3 where G: "get_field h i st2 = (old, st3)" by (cases "get_field h i st2")
  define t where "t = (if op = ASSIGN then v else arith h op old v)"
  define s where "s = (if op = ASSIGN then st2 else st3)"
  have n: "append_pattern (FieldExpr idx) op val = None"
    by (simp add: append_pattern_def)
  have r: "evaluate h (AssignExpr (FieldExpr idx) op val) st
           = get_field h i (set_field h i t s)"
    by (simp add: n V I i_def [symmetric] G t_def s_def Let_def)
  have neg: "i < 0 \<Longrightarrow> get_field h i (set_field h i t s) = (String [], parse_fields h st2)"
  proof -
    assume a: "i < 0"
    have "st3 = parse_fields h st2" using G a by (simp add: get_field_negative)
    then have "parse_fields h s = parse_fields h st2"
      by (simp add: s_def parse_fields_twice)
    then show ?thesis
      using a by (simp add: get_field_negative set_field_negative parse_fields_twice)
  qed
  have zero: "i = 0 \<Longrightarrow> fst (get_field h i (set_field h i t s)) = Strnum (to_string t)
      \<and> current_record (snd (get_field h i (set_field h i t s))) = to_string t"
    by (simp add: get_set_field_zero current_record_parse_fields)
  have pos: "0 < i \<Longrightarrow> length (field_values st2) = length (field_values_valid st2) \<Longrightarrow>
      fst (get_field h i (set_field h i t s)) = Strnum (to_string t)
      \<and> fields_vec (snd (get_field h i (set_field h i t s))) ! nat (i - 1) = to_string t"
  proof -
    assume a: "0 < i" and inv: "length (field_values st2) = length (field_values_valid st2)"
    have "length (field_values st3) = length (field_values_valid st3)"
      using get_field_lengths [OF inv, of h i] G by simp
    then have "length (field_values s) = length (field_values_valid s)"
      using inv by (simp add: s_def)
    then show ?thesis by (rule get_set_field_positive [OF a])
  qed
  have tt: "(if op = ASSIGN then v else arith h op (fst (get_field h i st2)) v) = t"
    by (simp add: t_def G)
  have "(i < 0 \<longrightarrow> get_field h i (set_field h i t s) = (String [], parse_fields h st2))
     \<and> (i = 0 \<longrightarrow> fst (get_field h i (set_field h i t s)) = Strnum (to_string t)
           \<and> current_record (snd (get_field h i (set_field h i t s))) = to_string t)
     \<and> (0 < i \<and> length (field_values st2) = length (field_values_valid st2) \<longrightarrow>
          fst (get_field h i (set_field h i t s)) = Strnum (to_string t)
          \<and> fields_vec (snd (get_field h i (set_field h i t s))) ! nat (i - 1) = to_string t)"
    using neg zero pos by blast
  then show ?thesis
    unfolding Let_def r V I fst_conv snd_conv i_def [symmetric] tt .
qed

text \<open>
  C10, as amended. An assignment \<open>x = x e1 e2 ...\<close> evaluates to the uninitialized value
  (string form empty, number 0) and leaves the state in which \<open>e1, e2, ...\<close> have been
  evaluated in order, the string form of each appended to \<open>x\<close> as it then stands; when the
  parts are independent of \<open>x\<close> this is \<open>x\<close> followed by the string forms of the parts.
  Every other assignment evaluates to what its target holds afterwards. For a variable
  and for an array element (an entry of \<open>SYMTAB\<close> being the variable of that name) this is
  the value assigned, which for a plain \<open>=\<close> is the value of the right-hand side. For a
  field \<open>$i\<close> it is what \<open>get_field\<close> reads after \<open>set_field\<close>: with \<open>t\<close> the value assigned
  (the right-hand side for \<open>=\<close>, else the operator applied to the field as read and the
  right-hand side), the strnum of the string form of \<open>t\<close>, which is then the record for
  \<open>i = 0\<close> and the text of the field for \<open>i > 0\<close> (in a state where \<open>field_values_\<close> and
  \<open>field_values_valid_\<close> have one length); and for \<open>i < 0\<close> the empty string, nothing being
  assigned: the state is that after the index, with the record parsed.
\<close>

theorem evaluate_append_assign:
  "evaluate h (AssignExpr (VariableExpr x) ASSIGN (ConcatExpr (VariableExpr x # e # es))) st
     = (Uninitialized, append_parts h x (e # es) st)
   \<and> to_string Uninitialized = [] \<and> to_number h Uninitialized = 0
   \<and> ((\<forall>p \<in> set (e # es). independent h x p) \<longrightarrow>
        append_parts h x (e # es) st
        = set_variable x
            (String (to_string (globals st x) @ concat (fst (evaluate_parts h (e # es) st))))
            (snd (evaluate_parts h (e # es) st)))
   \<and> (append_pattern (VariableExpr y) op val = None \<longrightarrow>
        fst (evaluate h (AssignExpr (VariableExpr y) op val) st)
          = globals (snd (evaluate h (AssignExpr (VariableExpr y) op val) st)) y
        \<and> (op = ASSIGN \<longrightarrow>
             fst (evaluate h (AssignExpr (VariableExpr y) op val) st)
               = fst (evaluate h val st)))
   \<and> (let r = evaluate h (AssignExpr (ArrayAccessExpr name indices) op val) st;
           ix = evaluate_indices h indices (snd (evaluate h val st));
           key = make_array_key (fst ix) (SUBSEP (snd ix))
       in fst r = (if name = ''SYMTAB'' then globals (snd r) key
                   else fst (array_access (globals (snd r) name) key))
          \<and> (op = ASSIGN \<longrightarrow> fst r = fst (evaluate h val st)))
   \<and> (let v = fst (evaluate h val st);
           ie = evaluate h idx (snd (evaluate h val st));
           i = to_int h (to_number h (fst ie));
           st2 = snd ie;
           t = (if op = ASSIGN then v else arith h op (fst (get_field h i st2)) v);
           r = evaluate h (AssignExpr (FieldExpr idx) op val) st
       in (i < 0 \<longrightarrow> r = (String [], parse_fields h st2))
        \<and> (i = 0 \<longrightarrow> fst r = Strnum (to_string t) \<and> current_record (snd r) = to_string t)
        \<and> (0 < i \<and> length (field_values st2) = length (field_values_valid st2) \<longrightarrow>
             fst r = Strnum (to_string t) \<and> fields_vec (snd r) ! nat (i - 1) = to_string t))"
proof -
  have a: "append_pattern (VariableExpr x) ASSIGN (ConcatExpr (VariableExpr x # e # es))
           = Some (x, e # es)"
    by (simp add: append_pattern_def)
  have b: "evaluate h (AssignExpr (VariableExpr x) ASSIGN (ConcatExpr (VariableExpr x # e # es))) st
     = (Uninitialized, append_parts h x (e # es) st)"
    by (simp only: evaluate.simps a option.case prod.case)
  have c: "append_pattern (VariableExpr y) op val = None \<Longrightarrow>
        fst (evaluate h (AssignExpr (VariableExpr y) op val) st)
          = globals (snd (evaluate h (AssignExpr (VariableExpr y) op val) st)) y
        \<and> (op = ASSIGN \<longrightarrow>
             fst (evaluate h (AssignExpr (VariableExpr y) op val) st)
               = fst (evaluate h val st))"
    by (auto simp add: split_beta Let_def)
  have d: "to_string Uninitialized = [] \<and> to_number h Uninitialized = 0"
    by simp
  show ?thesis
    using b c d append_parts_independent [of e es h x st]
      assign_array_element [of h name indices op val st] assign_field [of h val st idx op]
    by blast
qed

theorem evaluate_append_assign_witness:
  "independent default_libs ''x'' (LiteralExpr (StringLiteral ''b''))
   \<and> independent default_libs ''x'' (LiteralExpr (NumberLiteral 7))
   \<and> append_pattern (VariableExpr ''y'') ASSIGN
         (ConcatExpr [LiteralExpr (StringLiteral ''b''), VariableExpr ''y'']) = None
   \<and> fst (evaluate default_libs
          (AssignExpr (VariableExpr ''x'') ASSIGN
             (ConcatExpr [VariableExpr ''x'', LiteralExpr (StringLiteral ''b''),
                          LiteralExpr (NumberLiteral 7)]))
          (set_variable ''x'' (String ''a'') new_interp)) = Uninitialized
   \<and> globals (snd (evaluate default_libs
          (AssignExpr (VariableExpr ''x'') ASSIGN
             (ConcatExpr [VariableExpr ''x'', LiteralExpr (StringLiteral ''b''),
                          LiteralExpr (NumberLiteral 7)]))
          (set_variable ''x'' (String ''a'') new_interp))) ''x'' = String ''ab7''
   \<and> fst (evaluate default_libs
          (AssignExpr (VariableExpr ''y'') ASSIGN
             (ConcatExpr [LiteralExpr (StringLiteral ''b''), VariableExpr ''y'']))
          (set_variable ''x'' (String ''a'') new_interp)) = String ''b''
   \<and> fst (evaluate default_libs
          (AssignExpr (ArrayAccessExpr ''arr'' [LiteralExpr (StringLiteral ''k'')]) ASSIGN
             (ConcatExpr [LiteralExpr (StringLiteral ''b''), VariableExpr ''y'']))
          (set_variable ''x'' (String ''a'') new_interp)) = String ''b''
   \<and> fst (evaluate default_libs
          (AssignExpr (FieldExpr (LiteralExpr (NumberLiteral 2))) ASSIGN
             (LiteralExpr (NumberLiteral 7)))
          (set_record default_libs ''a b c'' new_interp)) = Strnum ''7''
   \<and> fields_vec (snd (evaluate default_libs
          (AssignExpr (FieldExpr (LiteralExpr (NumberLiteral 2))) ASSIGN
             (LiteralExpr (NumberLiteral 7)))
          (set_record default_libs ''a b c'' new_interp))) ! 1 = ''7''"
proof -
  have i: "\<forall>p \<in> set [LiteralExpr (StringLiteral ''b''), LiteralExpr (NumberLiteral 7)].
       independent default_libs ''x'' p"
    by (simp add: independent_def)
  have n: "append_pattern (VariableExpr ''y'') ASSIGN
         (ConcatExpr [LiteralExpr (StringLiteral ''b''), VariableExpr ''y'']) = None"
    by (simp add: append_pattern_def)
  have seven: "number_to_string 7 = ''7''"
    by code_simp
  have inv: "length (field_values (set_record default_libs ''a b c'' new_interp))
             = length (field_values_valid (set_record default_libs ''a b c'' new_interp))"
    by (simp add: set_record_def parse_fields_def new_interp_def)
  have two: "to_int default_libs 2 = 2"
    by (simp add: to_int_def)
  have v: "evaluate default_libs (LiteralExpr (NumberLiteral 7))
             (set_record default_libs ''a b c'' new_interp)
           = (Number 7, set_record default_libs ''a b c'' new_interp)"
    by simp
  have ix: "evaluate default_libs (LiteralExpr (NumberLiteral 2))
             (set_record default_libs ''a b c'' new_interp)
           = (Number 2, set_record default_libs ''a b c'' new_interp)"
    by simp
  have first: "independent default_libs ''x'' (LiteralExpr (StringLiteral ''b''))
   \<and> independent default_libs ''x'' (LiteralExpr (NumberLiteral 7))
   \<and> append_pattern (VariableExpr ''y'') ASSIGN
         (ConcatExpr [LiteralExpr (StringLiteral ''b''), VariableExpr ''y'']) = None
   \<and> fst (evaluate default_libs
          (AssignExpr (VariableExpr ''x'') ASSIGN
             (ConcatExpr [VariableExpr ''x'', LiteralExpr (StringLiteral ''b''),
                          LiteralExpr (NumberLiteral 7)]))
          (set_variable ''x'' (String ''a'') new_interp)) = Uninitialized
   \<and> globals (snd (evaluate default_libs
          (AssignExpr (VariableExpr ''x'') ASSIGN
             (ConcatExpr [VariableExpr ''x'', LiteralExpr (StringLiteral ''b''),
                          LiteralExpr (NumberLiteral 7)]))
          (set_variable ''x'' (String ''a'') new_interp))) ''x'' = String ''ab7''
   \<and> fst (evaluate default_libs
          (AssignExpr (VariableExpr ''y'') ASSIGN
             (ConcatExpr [LiteralExpr (StringLiteral ''b''), VariableExpr ''y'']))
          (set_variable ''x'' (String ''a'') new_interp)) = String ''b''
   \<and> fst (evaluate default_libs
          (AssignExpr (ArrayAccessExpr ''arr'' [LiteralExpr (StringLiteral ''k'')]) ASSIGN
             (ConcatExpr [LiteralExpr (StringLiteral ''b''), VariableExpr ''y'']))
          (set_variable ''x'' (String ''a'') new_interp)) = String ''b''"
    using i n
      evaluate_append_assign [of default_libs "''x''" "LiteralExpr (StringLiteral ''b'')"
        "[LiteralExpr (NumberLiteral 7)]" "set_variable ''x'' (String ''a'') new_interp"
        "''y''" ASSIGN "ConcatExpr [LiteralExpr (StringLiteral ''b''), VariableExpr ''y'']"
        "''arr''" "[LiteralExpr (StringLiteral ''k'')]" "LiteralExpr (NumberLiteral 2)"]
    by (simp add: seven append_pattern_def set_variable_def append_string_def new_interp_def
        Let_def split_beta)
  have second: "fst (evaluate default_libs
          (AssignExpr (FieldExpr (LiteralExpr (NumberLiteral 2))) ASSIGN
             (LiteralExpr (NumberLiteral 7)))
          (set_record default_libs ''a b c'' new_interp)) = Strnum ''7''
   \<and> fields_vec (snd (evaluate default_libs
          (AssignExpr (FieldExpr (LiteralExpr (NumberLiteral 2))) ASSIGN
             (LiteralExpr (NumberLiteral 7)))
          (set_record default_libs ''a b c'' new_interp))) ! 1 = ''7''"
    using inv two v ix
      evaluate_append_assign [of default_libs "''x''" "LiteralExpr (StringLiteral ''b'')"
        "[]" "set_record default_libs ''a b c'' new_interp"
        "''y''" ASSIGN "LiteralExpr (NumberLiteral 7)"
        "''arr''" "[]" "LiteralExpr (NumberLiteral 2)"]
    by (simp add: seven Let_def del: evaluate.simps)
  show ?thesis using first second by blast
qed

text \<open>
  C10 as stated fails for a field of negative index: with the record \<open>a b c\<close>,
  \<open>$(-1) = "v"\<close> evaluates to the empty string, not to \<open>v\<close>, and leaves the fields and the
  record as they were.
\<close>

theorem assign_negative_field:
  "fst (evaluate default_libs
          (AssignExpr (FieldExpr (OtherExpr (\<lambda>st. (Number (- 1), st)))) ASSIGN
             (LiteralExpr (StringLiteral ''v'')))
          (set_record default_libs ''a b c'' new_interp)) = String []
   \<and> fst (evaluate default_libs (LiteralExpr (StringLiteral ''v''))
          (set_record default_libs ''a b c'' new_interp)) = String ''v''
   \<and> fields_vec (snd (evaluate default_libs
          (AssignExpr (FieldExpr (OtherExpr (\<lambda>st. (Number (- 1), st)))) ASSIGN
             (LiteralExpr (StringLiteral ''v'')))
          (set_record default_libs ''a b c'' new_interp))) = [''a'', ''b'', ''c'']
   \<and> current_record (snd (evaluate default_libs
          (AssignExpr (FieldExpr (OtherExpr (\<lambda>st. (Number (- 1), st)))) ASSIGN
             (LiteralExpr (StringLiteral ''v'')))
          (set_record default_libs ''a b c'' new_interp))) = ''a b c''"
  by code_simp

section \<open>Counting and replacing in sub and gsub\<close>

text \<open>The counting loop of \<open>gsub\<close> only counts up, and counts at least the first match.\<close>

lemma gsub_count_ge: "count \<le> gsub_count re s k count"
proof (induction re s k count rule: gsub_count.induct)
  case (1 re s searchStart count)
  show ?case
  proof (cases "regex_search re match_default s searchStart")
    case None
    then show ?thesis by (subst gsub_count.simps) simp
  next
    case (Some m)
    obtain p l where m: "m = (p, l)" by (cases m)
    have S: "regex_search re match_default s searchStart = Some (p, l)"
      using Some m by simp
    consider (skip) "l = 0" "p + l \<noteq> length s" | (stop) "l = 0" "p + l = length s"
      | (step) "l \<noteq> 0"
      by blast
    then show ?thesis
    proof cases
      case skip
      have "count + 1 \<le> gsub_count re s (p + l + 1) (count + 1)"
        by (rule "1.IH"(1) [OF S refl skip])
      moreover have "gsub_count re s searchStart count = gsub_count re s (p + l + 1) (count + 1)"
        using S skip by (subst gsub_count.simps) simp
      ultimately show ?thesis by simp
    next
      case stop
      have "gsub_count re s searchStart count = count + 1"
        using S stop by (subst gsub_count.simps) simp
      then show ?thesis by simp
    next
      case step
      have "count + 1 \<le> gsub_count re s (p + l) (count + 1)"
        by (rule "1.IH"(2) [OF S refl step])
      moreover have "gsub_count re s searchStart count = gsub_count re s (p + l) (count + 1)"
        using S step by (subst gsub_count.simps) simp
      ultimately show ?thesis by simp
    qed
  qed
qed

lemma gsub_count_positive:
  "(0 < gsub_count re s 0 0) = (regex_search re match_default s 0 \<noteq> None)"
proof (cases "regex_search re match_default s 0")
  case None
  then show ?thesis by (subst gsub_count.simps) simp
next
  case (Some m)
  obtain p l where m: "m = (p, l)" by (cases m)
  have "gsub_count re s 0 0
        = (if l = 0 then (if p + l \<noteq> length s then gsub_count re s (p + l + 1) 1 else 1)
           else gsub_count re s (p + l) 1)"
    using Some m by (subst gsub_count.simps) simp
  then have "1 \<le> gsub_count re s 0 0"
    using gsub_count_ge [of 1 re s "p + l + 1"] gsub_count_ge [of 1 re s "p + l"]
    by (simp split: if_splits)
  then show ?thesis using Some by simp
qed

text \<open>
  \<open>gsub(re, "&", s)\<close> writes nothing back: whatever the regex and the target, the
  replaced text equals the target, and the state after the call is the state in which the
  arguments have been evaluated and the target read (for the record and for a variable
  that is the state after the arguments). The call returns what the counting loop counts:
  at least 1 exactly when the regex matches; 0, after a message, when the regex does not
  compile.
\<close>

lemma gsub_ampersand_noop:
  assumes "evaluate h pattern_arg st = (pv, st1)"
    and "evaluate h replacement_arg st1 = (rv, st2)"
    and "to_string rv = ''&''"
    and "sub_gsub_target h rest st2 = (target_str, st3)"
  shows "evaluate_sub_gsub h ''gsub'' (pattern_arg # replacement_arg # rest) st
         = (case get_cached_regex h (to_string pv) of
              None \<Rightarrow>
                (Number 0,
                 st3\<lparr> error_log := error_log st3 @ [''awk: gsub: invalid regex''] \<rparr>)
            | Some re \<Rightarrow> (Number (int (gsub_count re target_str 0 0)), st3))
         \<and> (\<forall>re. get_cached_regex h (to_string pv) = Some re \<longrightarrow>
                regex_replace target_str re (convert_awk_replacement (to_string rv) False) False
                  = target_str
                \<and> (0 < gsub_count re target_str 0 0)
                    = (regex_search re match_default target_str 0 \<noteq> None))
         \<and> (rest = [] \<longrightarrow> st3 = st2 \<and> target_str = current_record st2)
         \<and> (\<forall>x. rest = [VariableExpr x] \<longrightarrow>
                st3 = st2 \<and> target_str = to_string (globals st2 x))"
proof -
  have conv: "convert_awk_replacement (to_string rv) False = ''$&''"
    using assms(3) by simp
  have a: "evaluate_sub_gsub h ''gsub'' (pattern_arg # replacement_arg # rest) st
         = (case get_cached_regex h (to_string pv) of
              None \<Rightarrow>
                (Number 0,
                 st3\<lparr> error_log := error_log st3 @ [''awk: gsub: invalid regex''] \<rparr>)
            | Some re \<Rightarrow> (Number (int (gsub_count re target_str 0 0)), st3))"
    using assms(1,2,4)
    by (simp add: evaluate_sub_gsub_def conv regex_replace_whole_match Let_def
        split: option.splits)
  have b: "\<forall>re. get_cached_regex h (to_string pv) = Some re \<longrightarrow>
                regex_replace target_str re (convert_awk_replacement (to_string rv) False) False
                  = target_str
                \<and> (0 < gsub_count re target_str 0 0)
                    = (regex_search re match_default target_str 0 \<noteq> None)"
    by (simp only: conv regex_replace_whole_match gsub_count_positive) simp
  have c: "rest = [] \<longrightarrow> st3 = st2 \<and> target_str = current_record st2"
    using assms(4) by (auto simp add: sub_gsub_target_def)
  have d: "\<forall>x. rest = [VariableExpr x] \<longrightarrow>
                st3 = st2 \<and> target_str = to_string (globals st2 x)"
    using assms(4) by (auto simp add: sub_gsub_target_def)
  show ?thesis using a b c d by blast
qed

lemma gsub_ampersand_noop_example:
  "evaluate_sub_gsub default_libs ''gsub''
     [RegexExpr ''a'', LiteralExpr (StringLiteral ''&''), VariableExpr ''x'']
     (set_variable ''x'' (String ''banana'') new_interp)
   = (Number 3, set_variable ''x'' (String ''banana'') new_interp)"
proof -
  let ?st = "set_variable ''x'' (String ''banana'') new_interp"
  have c: "gsub_count (literal_regex False ''a'') ''banana'' 0 0 = 3"
    by code_simp
  have t: "sub_gsub_target default_libs [VariableExpr ''x''] ?st = (''banana'', ?st)"
    by (simp add: sub_gsub_target_def)
  have r: "get_cached_regex default_libs ''a'' = Some (literal_regex False ''a'')"
    by (simp add: default_libs_def compile_literal_def)
  show ?thesis
    using gsub_ampersand_noop [of default_libs "RegexExpr ''a''" ?st "Regex ''a''" ?st
        "LiteralExpr (StringLiteral ''&'')" "String ''&''" ?st "[VariableExpr ''x'']"
        "''banana''" ?st] c t r
    by simp
qed

text \<open>
  C9. \<open>gsub(re, "&", s)\<close> leaves \<open>s\<close> as it is, for every regex and target (lemma
  \<open>gsub_ampersand_noop\<close>), but what it returns is not always the number of matches. With
  \<open>x\<close> holding \<open>aaa\<close>, \<open>gsub(/^a/, "&", x)\<close> leaves \<open>x\<close> as \<open>aaa\<close> and returns 3, while the
  regex matches \<open>aaa\<close> once, at its start (the iterator of \<open>regex_replace\<close> finds that one
  match): the counting loop restarts the search on each remaining range, where \<open>^\<close>
  matches again. For \<open>gsub(/a/, "&", x)\<close> the count, 3, is the number of matches.
\<close>

theorem gsub_ampersand_count_differs:
  "fst (evaluate_sub_gsub default_libs ''gsub''
          [RegexExpr ''^a'', LiteralExpr (StringLiteral ''&''), VariableExpr ''x'']
          (set_variable ''x'' (String ''aaa'') new_interp)) = Number 3
   \<and> globals (snd (evaluate_sub_gsub default_libs ''gsub''
          [RegexExpr ''^a'', LiteralExpr (StringLiteral ''&''), VariableExpr ''x'']
          (set_variable ''x'' (String ''aaa'') new_interp))) ''x'' = String ''aaa''
   \<and> regex_iterator (literal_regex True ''a'') ''aaa'' = [(0, 1)]
   \<and> fst (evaluate_sub_gsub default_libs ''gsub''
          [RegexExpr ''a'', LiteralExpr (StringLiteral ''&''), VariableExpr ''x'']
          (set_variable ''x'' (String ''aaa'') new_interp)) = Number 3
   \<and> regex_iterator (literal_regex False ''a'') ''aaa'' = [(0, 1), (1, 1), (2, 1)]"
  by code_simp

text \<open>
  C4. \<open>sub\<close> takes its count from whether the text changed, not from the replacement
  done. With the record \<open>a\<close>, \<open>sub(/a/, "a")\<close> replaces the one match (the iterator of
  \<open>regex_replace\<close> finds it) and returns 0, in \<open>evaluate(CallExpr&)\<close> and in the builtin
  table alike. \<open>gsub\<close> counts with a loop of its own, which searches each remaining
  range afresh, so that \<open>^\<close> matches at every restart: \<open>gsub(/^a/, "b", x)\<close> on \<open>aaa\<close>
  replaces one match, leaving \<open>baa\<close>, and returns 3.
\<close>

theorem sub_gsub_count_differs:
  "fst (evaluate_sub_gsub default_libs ''sub''
          [RegexExpr ''a'', LiteralExpr (StringLiteral ''a'')]
          (set_record default_libs ''a'' new_interp)) = Number 0
   \<and> regex_iterator (literal_regex False ''a'') ''a'' = [(0, 1)]
   \<and> fst (builtin_sub_gsub default_libs False [Regex ''a'', String ''a'']
          (set_record default_libs ''a'' new_interp)) = Number 0
   \<and> fst (evaluate_sub_gsub default_libs ''gsub''
          [RegexExpr ''^a'', LiteralExpr (StringLiteral ''b''), VariableExpr ''x'']
          (set_variable ''x'' (String ''aaa'') new_interp)) = Number 3
   \<and> globals (snd (evaluate_sub_gsub default_libs ''gsub''
          [RegexExpr ''^a'', LiteralExpr (StringLiteral ''b''), VariableExpr ''x'']
          (set_variable ''x'' (String ''aaa'') new_interp))) ''x'' = String ''baa''
   \<and> regex_iterator (literal_regex True ''a'') ''aaa'' = [(0, 1)]"
  by code_simp

section \<open>Reading and assigning fields\<close>

text \<open>
  What \<open>get_field\<close> does to the state for a positive index: the fields vector is
  extended to that index, \<open>NF\<close> and the record are left as they are.
\<close>

lemma get_field_positive:
  "0 < index \<Longrightarrow>
   fields_vec (snd (get_field h index st)) = extend_fields index (fields_vec (parse_fields h st))
   \<and> NF (snd (get_field h index st)) = NF (parse_fields h st)
   \<and> current_record (snd (get_field h index st)) = current_record (parse_fields h st)"
  by (simp add: get_field_def Let_def)

text \<open>\<open>set_field\<close> sets \<open>NF\<close> to the length of the fields vector, extended or not.\<close>

lemma set_field_NF:
  "0 < index \<Longrightarrow>
   NF (set_field h index v st) = max index (int (length (fields_vec (parse_fields h st))))"
  by (auto simp add: set_field_def Let_def extend_fields_def)

text \<open>
  An assignment beyond the end of the fields vector makes \<open>NF\<close> the index and leaves the
  fields in between empty.
\<close>

lemma set_field_beyond_fields:
  assumes "int (length (fields_vec (parse_fields h st))) < index"
  shows "NF (set_field h index v st) = index
         \<and> int (length (fields_vec (set_field h index v st))) = index
         \<and> (\<forall>j. length (fields_vec (parse_fields h st)) < j \<and> int j < index \<longrightarrow>
                fields_vec (set_field h index v st) ! (j - 1) = [])"
proof -
  have pos: "0 < index" using assms by linarith
  let ?fs = "fields_vec (parse_fields h st)"
  have f: "fields_vec (set_field h index v st)
           = (extend_fields index ?fs)[nat (index - 1) := to_string v]"
    using pos by (simp add: set_field_def Let_def)
  have len: "length (extend_fields index ?fs) = nat index"
    using assms by (simp add: extend_fields_def)
  have nth: "\<And>j. length ?fs < j \<Longrightarrow> int j < index \<Longrightarrow>
               (extend_fields index ?fs)[nat (index - 1) := to_string v] ! (j - 1) = []"
  proof -
    fix j assume a: "length ?fs < j" "int j < index"
    have ne: "j - 1 \<noteq> nat (index - 1)" using a by linarith
    have ge: "length ?fs \<le> j - 1" and lt: "j - 1 - length ?fs < nat index - length ?fs"
      using a by linarith+
    have "(extend_fields index ?fs) ! (j - 1) = replicate (nat index - length ?fs) [] ! (j - 1 - length ?fs)"
      unfolding extend_fields_def using ge by (simp only: nth_append) simp
    then have "(extend_fields index ?fs) ! (j - 1) = []"
      using lt by (simp only: nth_replicate)
    then show "(extend_fields index ?fs)[nat (index - 1) := to_string v] ! (j - 1) = []"
      using ne by simp
  qed
  have third: "\<forall>j. length ?fs < j \<and> int j < index \<longrightarrow>
                fields_vec (set_field h index v st) ! (j - 1) = []"
    unfolding f using nth by blast
  have first: "NF (set_field h index v st) = index"
    using set_field_NF [OF pos, of h v st] assms by simp
  have second: "int (length (fields_vec (set_field h index v st))) = index"
    using f len pos by simp
  show ?thesis using first second third by blast
qed

text \<open>
  C6. With the record \<open>a b c\<close>, reading \<open>$5\<close> yields the empty string and leaves \<open>NF\<close> at 3
  and the record as it is, but the fields vector now has five entries. The effect
  escapes: a later \<open>$1 = "A"\<close> sets \<open>NF\<close> to 5 and the record is rebuilt with two
  separators at its end, where without the read \<open>NF\<close> stays 3.
\<close>

theorem get_field_beyond_NF_extends:
  "fst (get_field default_libs 5 (set_record default_libs ''a b c'' new_interp)) = Strnum []
   \<and> fields_vec (set_record default_libs ''a b c'' new_interp) = [''a'', ''b'', ''c'']
   \<and> NF (set_record default_libs ''a b c'' new_interp) = 3
   \<and> fields_vec (snd (get_field default_libs 5 (set_record default_libs ''a b c'' new_interp)))
       = [''a'', ''b'', ''c'', [], []]
   \<and> NF (snd (get_field default_libs 5 (set_record default_libs ''a b c'' new_interp))) = 3
   \<and> NF (set_field default_libs 1 (String ''A'')
            (snd (get_field default_libs 5 (set_record default_libs ''a b c'' new_interp)))) = 5
   \<and> current_record (rebuild_record (set_field default_libs 1 (String ''A'')
            (snd (get_field default_libs 5 (set_record default_libs ''a b c'' new_interp)))))
       = ''A b c  ''
   \<and> NF (set_field default_libs 1 (String ''A'')
            (set_record default_libs ''a b c'' new_interp)) = 3"
  by code_simp

text \<open>
  C7. With the record \<open>a b c\<close>, after \<open>$10\<close> has been read \<open>NF\<close> is still 3, and the
  assignment \<open>$5 = "v"\<close>, whose index is beyond \<open>NF\<close>, sets \<open>NF\<close> to 10, the length of the
  fields vector the read has extended; without the read it sets \<open>NF\<close> to 5.
\<close>

theorem set_field_after_read_NF:
  "NF (snd (get_field default_libs 10 (set_record default_libs ''a b c'' new_interp))) = 3
   \<and> NF (set_field default_libs 5 (String ''v'')
            (snd (get_field default_libs 10 (set_record default_libs ''a b c'' new_interp)))) = 10
   \<and> NF (set_field default_libs 5 (String ''v'')
            (set_record default_libs ''a b c'' new_interp)) = 5"
  by code_simp

section \<open>Properties of substr\<close>

text \<open>
  C5, as amended. \<open>substr(s, m, n)\<close> is the at most \<open>k\<close> characters of \<open>s\<close> from position
  \<open>max(i, 1)\<close>, where \<open>i\<close> is \<open>m\<close> cast to \<open>int\<close> and \<open>k\<close> is \<open>n\<close> cast to \<open>size_t\<close>;
  \<open>substr(s, m)\<close> is the suffix of \<open>s\<close> from that position. For \<open>m\<close> in the range of \<open>int\<close>
  the position is \<open>max(m, 1)\<close>; for \<open>n\<close> from 0 to below \<open>2^64\<close> the count is \<open>n\<close>, so that
  the result has at most \<open>n\<close> characters and is empty for \<open>n = 0\<close>. Outside these ranges the
  casts are undefined in C++: a negative \<open>n\<close> gives whatever count the machine makes of it.
\<close>

theorem substr_result:
  "substr h [s, m, n]
     = String (take (to_size_t h (to_number h n))
                 (drop (nat (max (to_int h (to_number h m)) 1 - 1)) (to_string s)))
   \<and> substr h [s, m]
     = String (drop (nat (max (to_int h (to_number h m)) 1 - 1)) (to_string s))
   \<and> (- (2 ^ 31) \<le> to_number h m \<and> to_number h m < 2 ^ 31 \<longrightarrow>
        to_int h (to_number h m) = to_number h m
        \<and> substr h [s, m] = String (drop (nat (max (to_number h m) 1 - 1)) (to_string s)))
   \<and> (- (2 ^ 31) \<le> to_number h m \<and> to_number h m < 2 ^ 31
        \<and> 0 \<le> to_number h n \<and> to_number h n < 2 ^ 64 \<longrightarrow>
        substr h [s, m, n]
          = String (take (nat (to_number h n))
                      (drop (nat (max (to_number h m) 1 - 1)) (to_string s))))
   \<and> (0 \<le> to_number h n \<and> to_number h n < 2 ^ 64 \<longrightarrow>
        int (length (to_string (substr h [s, m, n]))) \<le> to_number h n)
   \<and> (to_number h n = 0 \<longrightarrow> substr h [s, m, n] = String [])
   \<and> (to_number h n < 0 \<longrightarrow>
        substr h [s, m, n]
          = String (take (size_t_out_of_range h (to_number h n))
                      (drop (nat (max (to_int h (to_number h m)) 1 - 1)) (to_string s))))"
proof -
  have three: "substr h [s, m, n]
     = String (take (to_size_t h (to_number h n))
                 (drop (nat (max (to_int h (to_number h m)) 1 - 1)) (to_string s)))"
    by (simp add: substr_def Let_def max_def)
  have two: "substr h [s, m]
     = String (drop (nat (max (to_int h (to_number h m)) 1 - 1)) (to_string s))"
    by (simp add: substr_def Let_def max_def)
  have cast_m: "- (2 ^ 31) \<le> to_number h m \<and> to_number h m < 2 ^ 31 \<longrightarrow>
        to_int h (to_number h m) = to_number h m"
    by (simp add: to_int_def)
  have cast_n: "0 \<le> to_number h n \<and> to_number h n < 2 ^ 64 \<longrightarrow>
        to_size_t h (to_number h n) = nat (to_number h n)"
    by (simp add: to_size_t_def)
  have cast_neg: "to_number h n < 0 \<longrightarrow>
        to_size_t h (to_number h n) = size_t_out_of_range h (to_number h n)"
    by (simp add: to_size_t_def)
  have len: "0 \<le> to_number h n \<and> to_number h n < 2 ^ 64 \<longrightarrow>
        int (length (to_string (substr h [s, m, n]))) \<le> to_number h n"
    using cast_n by (simp only: three) auto
  have zero: "to_number h n = 0 \<longrightarrow> substr h [s, m, n] = String []"
    using cast_n by (simp only: three) auto
  show ?thesis
    using three two cast_m cast_n cast_neg len zero by (simp del: to_string.simps)
qed

theorem substr_result_witness:
  "substr default_libs [String ''hello'', Number 2, Number 3] = String ''ell''
   \<and> substr default_libs [String ''hello'', Number (-2), Number 3] = String ''hel''
   \<and> substr default_libs [String ''hello'', Number 2, Number 0] = String []
   \<and> substr default_libs [String ''hello'', Number 2] = String ''ello''
   \<and> substr default_libs [String ''hello'', Number 4294967298] = String ''hello''"
proof -
  have big: "to_int default_libs 4294967298 = - (2 ^ 31)"
    by (simp add: to_int_def default_libs_def)
  have a: "substr default_libs [String ''hello'', Number 2, Number 3] = String ''ell''
        \<and> substr default_libs [String ''hello'', Number 2] = String ''ello''"
    using substr_result [of default_libs "String ''hello''" "Number 2" "Number 3"]
    by (simp add: eval_nat_numeral to_size_t_def to_int_def)
  have b: "substr default_libs [String ''hello'', Number (-2), Number 3] = String ''hel''"
    using substr_result [of default_libs "String ''hello''" "Number (-2)" "Number 3"]
    by (simp add: eval_nat_numeral to_size_t_def to_int_def)
  have c: "substr default_libs [String ''hello'', Number 2, Number 0] = String []"
    using substr_result [of default_libs "String ''hello''" "Number 2" "Number 0"]
    by (simp add: to_size_t_def to_int_def)
  have d: "substr default_libs [String ''hello'', Number 4294967298] = String ''hello''"
    using substr_result [of default_libs "String ''hello''" "Number 4294967298" "Number 0"]
    by (simp add: big)
  show ?thesis using a b c d by simp
qed

text \<open>
  C5 as stated fails where the cast wraps, as on x86-64: \<open>substr("hello", 2, -5)\<close> is
  \<open>ello\<close>, not the empty string.
\<close>

theorem substr_negative_length:
  "substr default_libs [String ''hello'', Number 2, Number (- 5)] = String ''ello''"
  by (simp add: substr_def to_size_t_def to_int_def default_libs_def Let_def)

section \<open>Range patterns\<close>

text \<open>
  The transitions of \<open>pattern_matches\<close> on a range pattern, by its \<open>range_active\<close>: while
  inactive, a record the start does not match does not match the pattern; a record the
  start matches does, and activates the pattern unless the end matches the same record;
  while active every record matches, and a record the end matches deactivates the
  pattern. The end is evaluated in the state the start has left.
\<close>

lemma pattern_matches_range:
  assumes "pattern_type pat = RANGE" and "expr pat = Some start_expr"
    and "range_end pat = Some end_expr"
  shows "(\<not> range_active pat \<and> \<not> fst (eval_range_expr h start_expr st) \<longrightarrow>
            pattern_matches h pat st = (False, pat, snd (eval_range_expr h start_expr st)))
       \<and> (\<not> range_active pat \<and> fst (eval_range_expr h start_expr st)
            \<and> \<not> fst (eval_range_expr h end_expr (snd (eval_range_expr h start_expr st))) \<longrightarrow>
            pattern_matches h pat st
              = (True, pat\<lparr> range_active := True \<rparr>,
                 snd (eval_range_expr h end_expr (snd (eval_range_expr h start_expr st)))))
       \<and> (\<not> range_active pat \<and> fst (eval_range_expr h start_expr st)
            \<and> fst (eval_range_expr h end_expr (snd (eval_range_expr h start_expr st))) \<longrightarrow>
            pattern_matches h pat st
              = (True, pat,
                 snd (eval_range_expr h end_expr (snd (eval_range_expr h start_expr st)))))
       \<and> (range_active pat \<and> \<not> fst (eval_range_expr h end_expr st) \<longrightarrow>
            pattern_matches h pat st = (True, pat, snd (eval_range_expr h end_expr st)))
       \<and> (range_active pat \<and> fst (eval_range_expr h end_expr st) \<longrightarrow>
            pattern_matches h pat st
              = (True, pat\<lparr> range_active := False \<rparr>, snd (eval_range_expr h end_expr st)))"
  using assms by (simp add: pattern_matches_def split_beta)



lemma execute_main_rules_length:
  "length (fst (snd (execute_main_rules h rules st))) = length rules"
  by (induction rules arbitrary: st) (auto simp add: split_beta Let_def split: option.splits)

lemma range_scenario:
  "output_log (snd (snd (process_stream default_libs [range_rule]
      [''before'', ''BEGIN'', ''x'', ''y'', ''END'', ''after''] new_interp)))
   = [''BEGIN'' @ [CHR 0x0A], ''x'' @ [CHR 0x0A], ''y'' @ [CHR 0x0A], ''END'' @ [CHR 0x0A]]"
  by code_simp



section \<open>Exit, nextfile and the stages of a run\<close>

text \<open>An exception thrown by an action leaves each loop at once, but for the one it catches.\<close>

lemma execute_special_rules_signal:
  "pattern_type (pattern rule) = ty \<Longrightarrow> action rule = Some a \<Longrightarrow>
   execute h a st = (Some sig, st1) \<Longrightarrow>
   execute_special_rules h ty (rule # rules) st = (Some sig, st1)"
  by simp

lemma process_stream_signal:
  "execute_main_rules h rules (read_record h r st) = (Some sig, rules1, st1) \<Longrightarrow>
   sig \<noteq> NextException \<Longrightarrow>
   process_stream h rules (r # input) st = (Some sig, rules1, st1)"
  by simp

lemma process_file_signal:
  "files filename = Some input \<Longrightarrow>
   execute_beginfile_rules h rules (st\<lparr> FILENAME := filename, FNR := 0 \<rparr>) = (None, st1) \<Longrightarrow>
   process_stream h rules input st1 = (Some sig, rules1, st2) \<Longrightarrow>
   process_file h rules files filename st = (Some sig, rules1, st2)"
  by (simp add: process_file_def)

lemma process_file_end_of_input:
  "files filename = Some input \<Longrightarrow>
   execute_beginfile_rules h rules (st\<lparr> FILENAME := filename, FNR := 0 \<rparr>) = (None, st1) \<Longrightarrow>
   process_stream h rules input st1 = (None, rules1, st2) \<Longrightarrow>
   process_file h rules files filename st
   = (fst (execute_endfile_rules h rules1 st2), rules1, snd (execute_endfile_rules h rules1 st2))"
  by (simp add: process_file_def split_beta)

lemma process_files_signal:
  "process_file h rules files filename st = (Some sig, rules1, st1) \<Longrightarrow>
   sig \<noteq> NextfileException \<Longrightarrow>
   process_files h rules files (filename # input_files) st = (Some sig, rules1, st1)"
  by simp

lemma process_files_nextfile:
  "process_file h rules files filename st = (Some NextfileException, rules1, st1) \<Longrightarrow>
   process_files h rules files (filename # input_files) st
   = process_files h rules1 files input_files st1"
  by simp

text \<open>
  C1, as amended. \<open>run\<close> has one try block around the three stages and one handler for
  \<open>ExitException\<close>: an exit in the BEGIN rules, while the input is processed, or in an END
  rule ends the stages there, and \<open>run\<close> goes on to close the streams from the state the
  exit has left. No END rule runs after an exit, wherever the exit was executed.
\<close>

theorem exit_ends_the_run:
  "(execute_begin_rules h rules st = (Some (ExitException n), st1) \<longrightarrow>
      run h rules input_files files stdin st = (None, rules, cleanup_io st1))
   \<and> (execute_begin_rules h rules st = (None, st1)
        \<and> process_input h rules input_files files stdin st1
            = (Some (ExitException n), rules1, st2) \<longrightarrow>
      run h rules input_files files stdin st = (None, rules1, cleanup_io st2))
   \<and> (execute_begin_rules h rules st = (None, st1)
        \<and> process_input h rules input_files files stdin st1 = (None, rules1, st2)
        \<and> execute_end_rules h rules1 st2 = (Some (ExitException n), st3) \<longrightarrow>
      run h rules input_files files stdin st = (None, rules1, cleanup_io st3))
   \<and> (pattern_type (pattern rule) = END \<and> action rule = Some a
        \<and> execute h a st = (Some (ExitException n), st1) \<longrightarrow>
      execute_end_rules h (rule # rules) st = (Some (ExitException n), st1))"
  by (simp add: run_def run_stages_def execute_end_rules_def)

theorem exit_ends_the_run_witness:
  "run default_libs
     [special_rule BEGIN [print_literal ''start'', ExitStmt None],
      special_rule END [print_literal ''end'']] [] no_files [] new_interp
   = (None,
      [special_rule BEGIN [print_literal ''start'', ExitStmt None],
       special_rule END [print_literal ''end'']],
      new_interp\<lparr> output_log := [''start'' @ [CHR 0x0A]] \<rparr>)"
proof -
  let ?rules = "[special_rule BEGIN [print_literal ''start'', ExitStmt None],
      special_rule END [print_literal ''end'']]"
  have b: "execute_begin_rules default_libs ?rules new_interp
           = (Some (ExitException 0), new_interp\<lparr> output_log := [''start'' @ [CHR 0x0A]] \<rparr>)"
    by (simp add: execute_begin_rules_def special_rule_def print_literal_def new_interp_def)
  have c: "cleanup_io (new_interp\<lparr> output_log := [''start'' @ [CHR 0x0A]] \<rparr>)
           = new_interp\<lparr> output_log := [''start'' @ [CHR 0x0A]] \<rparr>"
    by (simp add: cleanup_io_def new_interp_def)
  show ?thesis
    using exit_ends_the_run [of default_libs ?rules new_interp 0
        "new_interp\<lparr> output_log := [''start'' @ [CHR 0x0A]] \<rparr>" "[]" no_files "[]"] b c
    by simp
qed

text \<open>
  C1 as stated fails: \<open>BEGIN { print "start"; exit } END { print "end" }\<close> prints only
  \<open>start\<close>, and prints \<open>end\<close> as well once the \<open>exit\<close> is taken out.
\<close>

theorem exit_in_begin_skips_end_rules:
  "fst (execute_begin_rules default_libs
          [special_rule BEGIN [print_literal ''start'', ExitStmt None],
           special_rule END [print_literal ''end'']] new_interp) = Some (ExitException 0)
   \<and> output_log (snd (snd (run default_libs
          [special_rule BEGIN [print_literal ''start'', ExitStmt None],
           special_rule END [print_literal ''end'']] [] no_files [] new_interp)))
       = [''start'' @ [CHR 0x0A]]
   \<and> output_log (snd (snd (run default_libs
          [special_rule BEGIN [print_literal ''start''],
           special_rule END [print_literal ''end'']] [] no_files [] new_interp)))
       = [''start'' @ [CHR 0x0A], ''end'' @ [CHR 0x0A]]"
  by code_simp


text \<open>
  C2, as amended. \<open>run\<close> discards the status of the exit it catches and \<open>main\<close> returns 0
  whenever \<open>run\<close> returns: without a parse error the exit status is 0 after \<open>exit N\<close>,
  whatever \<open>N\<close>, as it is when no exit is executed; after a parse error it is 1.
\<close>

theorem exit_status_discarded:
  "(had_error \<longrightarrow> main h had_error rules input_files files stdin st = Returned 1)
   \<and> (\<not> had_error
        \<and> fst (run_stages h rules input_files files stdin st) = Some (ExitException n) \<longrightarrow>
      main h had_error rules input_files files stdin st = Returned 0)
   \<and> (\<not> had_error \<and> fst (run_stages h rules input_files files stdin st) = None \<longrightarrow>
      main h had_error rules input_files files stdin st = Returned 0)"
  by (auto simp add: main_def run_def split: prod.splits option.splits)

theorem exit_status_discarded_witness:
  "main default_libs False
     [special_rule END [ExitStmt (Some (LiteralExpr (NumberLiteral 7)))]] [] no_files []
     new_interp = Returned 0"
proof -
  have "fst (run_stages default_libs
     [special_rule END [ExitStmt (Some (LiteralExpr (NumberLiteral 7)))]] [] no_files []
     new_interp) = Some (ExitException 7)"
    by code_simp
  then show ?thesis
    using exit_status_discarded [of False default_libs
        "[special_rule END [ExitStmt (Some (LiteralExpr (NumberLiteral 7)))]]" "[]" no_files
        "[]" new_interp 7]
    by simp
qed

text \<open>C2 as stated fails: \<open>BEGIN { exit 42 }\<close> throws the exit with status 42 and \<open>main\<close> returns 0.\<close>

theorem exit_42_returns_0:
  "fst (run_stages default_libs
          [special_rule BEGIN [ExitStmt (Some (LiteralExpr (NumberLiteral 42)))]] [] no_files []
          new_interp) = Some (ExitException 42)
   \<and> main default_libs False
          [special_rule BEGIN [ExitStmt (Some (LiteralExpr (NumberLiteral 42)))]] [] no_files []
          new_interp = Returned 0"
  by code_simp

text \<open>
  C3. With a file \<open>f\<close> of two records, \<open>BEGINFILE { print "beginfile" } { nextfile }
  ENDFILE { print "endfile" }\<close> prints only \<open>beginfile\<close>: the exception leaves
  \<open>process_file\<close> before \<open>execute_endfile_rules\<close> (lemma \<open>process_file_signal\<close>) and is caught
  in \<open>run\<close>. With \<open>next\<close> in place of \<open>nextfile\<close> the ENDFILE rule runs.
\<close>

theorem nextfile_skips_endfile_rules:
  "output_log (snd (snd (run default_libs
      [special_rule BEGINFILE [print_literal ''beginfile''],
       special_rule EMPTY [NextfileStmt],
       special_rule ENDFILE [print_literal ''endfile'']] [''f''] one_file [] new_interp)))
     = [''beginfile'' @ [CHR 0x0A]]
   \<and> output_log (snd (snd (run default_libs
      [special_rule BEGINFILE [print_literal ''beginfile''],
       special_rule EMPTY [NextStmt],
       special_rule ENDFILE [print_literal ''endfile'']] [''f''] one_file [] new_interp)))
     = [''beginfile'' @ [CHR 0x0A], ''endfile'' @ [CHR 0x0A]]"
  by code_simp

end
